theory Spec2Isabelle
  imports Complex_Main "HOL-Library.Sublist" "HOL-Library.Log_Nat"
begin

section \<open>Data model\<close>

text \<open>
  The value of an ObjectId is a natural number, a date is an integer timestamp
  (milliseconds), and a finite JavaScript number is a rational. The rule-based score is
  the sum of its decimal terms in exact arithmetic; the content-based similarity, the
  collaborative score and the mean of the hybrid merge are computed in double precision
  (section Double-precision arithmetic). The weight of a reason is a constant that is
  only copied. Collections are lists in natural (insertion) order. Queries and
  \<open>MongooseArray.includes\<close> compare ObjectIds by value; \<open>Array.prototype.includes\<close> on a
  plain array compares them as objects, by identity (see the collaborative scorer).
\<close>

type_synonym oid = nat
type_synonym date = int
type_synonym reasons = "(string \<times> rat) list"

datatype role = School | University

record user =
  user_id :: oid
  user_role :: role
  education_degree :: "string option"
  education_year :: "nat option"
  school_stream :: "string option"
  interests :: "string list"
  saved_exams :: "oid list"
  saved_hackathons :: "oid list"
  saved_internships :: "oid list"
  user_is_active :: bool

text \<open>The Exam schema declares no \<open>application_count\<close>; the field is optional here
  and the comparison \<open>undefined > 100\<close> is false.\<close>

record exam =
  exam_id :: oid
  exam_name :: string
  exam_type :: string
  exam_subjects :: "string list"
  exam_event_dates :: "date list"
  exam_is_active :: bool
  exam_application_count :: "nat option"

datatype opp_kind = Hackathon | Internship

record opportunity =
  opp_id :: oid
  opp_title :: string
  opp_type :: opp_kind
  opp_organizer :: "string option"
  opp_company :: "string option"
  opp_domain :: "string list option"
  opp_skills_required :: "string list"
  opp_degree_required :: "string list"
  opp_year_of_study :: "nat list"
  opp_deadline :: date
  opp_is_active :: bool
  opp_application_count :: nat

datatype entity = Exam | Opportunity

datatype algorithm = RuleBased | ContentBased | CollaborativeFiltering | Hybrid

text \<open>A recommendation as the scorers build it (the argument of \<open>insertMany\<close>).\<close>

record rec =
  rec_user_id :: oid
  entity_type :: entity
  entity_id :: oid
  entity_type_ref :: string
  score :: rat
  algorithm_used :: algorithm
  recommendation_reasons :: reasons

section \<open>Strings\<close>

text \<open>\<open>toLowerCase\<close> on the ASCII letters; every other character is left as it is.\<close>

definition lower_char :: "char \<Rightarrow> char" where
  "lower_char c =
     (case map_of (zip ''ABCDEFGHIJKLMNOPQRSTUVWXYZ'' ''abcdefghijklmnopqrstuvwxyz'') c of
        Some d \<Rightarrow> d | None \<Rightarrow> c)"

definition toLowerCase :: "string \<Rightarrow> string" where
  "toLowerCase s = map lower_char s"

text \<open>\<open>s.includes(t)\<close>: \<open>t\<close> occurs in \<open>s\<close> as a contiguous substring.\<close>

fun str_includes :: "string \<Rightarrow> string \<Rightarrow> bool" where
  "str_includes [] t = (t = [])"
| "str_includes (c # s) t = (prefix t (c # s) \<or> str_includes s t)"

definition ci_includes :: "string \<Rightarrow> string \<Rightarrow> bool" where
  "ci_includes s t = str_includes (toLowerCase s) (toLowerCase t)"

section \<open>Candidate queries\<close>

text \<open>\<open>Exam.find({is_active: true, 'events.date': {$gt: now}})\<close>\<close>

definition exam_upcoming :: "date \<Rightarrow> exam \<Rightarrow> bool" where
  "exam_upcoming now e = (exam_is_active e \<and> (\<exists>d \<in> set (exam_event_dates e). now < d))"

text \<open>\<open>Opportunity.find({is_active: true, deadline: {$gt: now}})\<close>\<close>

definition opp_open :: "date \<Rightarrow> opportunity \<Rightarrow> bool" where
  "opp_open now p = (opp_is_active p \<and> now < opp_deadline p)"

section \<open>Rule-based scorer\<close>

definition add_bonus :: "rat \<Rightarrow> string \<Rightarrow> rat \<Rightarrow> rat \<times> reasons \<Rightarrow> rat \<times> reasons" where
  "add_bonus amount text weight sr = (fst sr + amount, snd sr @ [(text, weight)])"

definition scienceSubjects :: "string list" where
  "scienceSubjects = [''Physics'', ''Chemistry'', ''Maths'', ''Biology'']"

definition exam_matchingSubjects :: "exam \<Rightarrow> string list" where
  "exam_matchingSubjects e =
     filter (\<lambda>subject. \<exists>sci \<in> set scienceSubjects. ci_includes subject sci) (exam_subjects e)"

definition exam_matchingInterests :: "user \<Rightarrow> exam \<Rightarrow> string list" where
  "exam_matchingInterests u e =
     filter (\<lambda>interest. ci_includes (exam_name e) interest \<or>
                        (\<exists>subject \<in> set (exam_subjects e). ci_includes subject interest))
            (interests u)"

text \<open>The body of the loop over exams, up to the threshold test: the accumulated
  score and the reasons pushed so far.\<close>

definition exam_rule_eval :: "user \<Rightarrow> exam \<Rightarrow> rat \<times> reasons" where
  "exam_rule_eval u e =
     (let sr0 = (5 / 10, []);
          sr1 = (if school_stream u = Some ''Science'' \<and> 0 < length (exam_matchingSubjects e)
                 then add_bonus (3 / 10) ''Matches your Science stream'' (3 / 10) sr0
                 else sr0);
          sr2 = (if 0 < length (interests u) \<and> 0 < length (exam_matchingInterests u e)
                 then add_bonus
                        (of_nat (length (exam_matchingInterests u e)) / of_nat (length (interests u))
                           * (2 / 10))
                        ''Aligns with your interests'' (2 / 10) sr1
                 else sr1);
          sr3 = (if (case exam_application_count e of Some n \<Rightarrow> 100 < n | None \<Rightarrow> False)
                 then add_bonus (1 / 10) ''Popular among students'' (1 / 10) sr2
                 else sr2)
      in sr3)"

definition opp_matchingInterests :: "user \<Rightarrow> opportunity \<Rightarrow> string list" where
  "opp_matchingInterests u p =
     filter (\<lambda>interest. ci_includes (opp_title p) interest \<or>
                        (\<exists>skill \<in> set (opp_skills_required p). ci_includes skill interest) \<or>
                        (case opp_domain p of
                           Some ds \<Rightarrow> \<exists>d \<in> set ds. ci_includes d interest
                         | None \<Rightarrow> False))
            (interests u)"

definition opp_rule_eval :: "user \<Rightarrow> opportunity \<Rightarrow> rat \<times> reasons" where
  "opp_rule_eval u p =
     (let sr0 = (5 / 10, []);
          sr1 = (if 0 < length (interests u) \<and> 0 < length (opp_matchingInterests u p)
                 then add_bonus
                        (of_nat (length (opp_matchingInterests u p)) / of_nat (length (interests u))
                           * (3 / 10))
                        ''Matches your interests'' (3 / 10) sr0
                 else sr0);
          sr2 = (if opp_type p = Internship \<and>
                    ((case education_degree u of
                        Some d \<Rightarrow> d \<in> set (opp_degree_required p) | None \<Rightarrow> False) \<or>
                     ''Any'' \<in> set (opp_degree_required p))
                 then add_bonus (2 / 10) ''Suitable for your degree'' (2 / 10) sr1
                 else sr1);
          sr3 = (if opp_type p = Internship \<and>
                    ((case education_year u of
                        Some y \<Rightarrow> y \<in> set (opp_year_of_study p) | None \<Rightarrow> False) \<or>
                     0 \<in> set (opp_year_of_study p))
                 then add_bonus (2 / 10) ''Perfect for your year'' (2 / 10) sr2
                 else sr2);
          sr4 = (if 50 < opp_application_count p
                 then add_bonus (1 / 10) ''Popular opportunity'' (1 / 10) sr3
                 else sr3)
      in sr4)"

definition exam_rec :: "user \<Rightarrow> exam \<Rightarrow> rat \<Rightarrow> algorithm \<Rightarrow> reasons \<Rightarrow> rec" where
  "exam_rec u e s a rs =
     \<lparr>rec_user_id = user_id u, entity_type = Exam, entity_id = exam_id e,
      entity_type_ref = ''Exam'', score = s, algorithm_used = a,
      recommendation_reasons = rs\<rparr>"

definition opp_rec :: "user \<Rightarrow> opportunity \<Rightarrow> rat \<Rightarrow> algorithm \<Rightarrow> reasons \<Rightarrow> rec" where
  "opp_rec u p s a rs =
     \<lparr>rec_user_id = user_id u, entity_type = Opportunity, entity_id = opp_id p,
      entity_type_ref = ''Opportunity'', score = s, algorithm_used = a,
      recommendation_reasons = rs\<rparr>"

text \<open>One iteration of each loop: push the record when the score exceeds 0.6.\<close>

definition rule_exam_step :: "user \<Rightarrow> rec list \<Rightarrow> exam \<Rightarrow> rec list" where
  "rule_exam_step u recommendations e =
     (let sr = exam_rule_eval u e
      in if 6 / 10 < fst sr
         then recommendations @ [exam_rec u e (min (fst sr) 1) RuleBased (snd sr)]
         else recommendations)"

definition rule_opp_step :: "user \<Rightarrow> rec list \<Rightarrow> opportunity \<Rightarrow> rec list" where
  "rule_opp_step u recommendations p =
     (let sr = opp_rule_eval u p
      in if 6 / 10 < fst sr
         then recommendations @ [opp_rec u p (min (fst sr) 1) RuleBased (snd sr)]
         else recommendations)"

text \<open>The candidate pools: \<open>.limit(50)\<close> exams, \<open>.limit(100)\<close> opportunities.\<close>

definition rule_exam_pool :: "date \<Rightarrow> exam list \<Rightarrow> exam list" where
  "rule_exam_pool now exs = take 50 (filter (exam_upcoming now) exs)"

definition rule_opp_pool :: "date \<Rightarrow> opportunity list \<Rightarrow> opportunity list" where
  "rule_opp_pool now ops = take 100 (filter (opp_open now) ops)"

definition generateRuleBasedRecommendations ::
    "exam list \<Rightarrow> opportunity list \<Rightarrow> date \<Rightarrow> user \<Rightarrow> rec list" where
  "generateRuleBasedRecommendations exs ops now u =
     (if user_role u = School
      then foldl (rule_exam_step u) [] (rule_exam_pool now exs)
      else foldl (rule_opp_step u) [] (rule_opp_pool now ops))"

section \<open>Double-precision arithmetic\<close>

text \<open>
  JavaScript numbers are IEEE 754 binary64 values. A finite double is a rational, a
  decimal literal denotes the double nearest to it, and \<open>+\<close>, \<open>*\<close> and \<open>/\<close> return the exact
  result rounded to the nearest double, ties to the even significand. \<open>rd\<close> is that
  rounding: the significand has 53 bits and the exponent is at least \<open>-1022\<close> (below it
  the spacing stays \<open>2^-1074\<close>). Results of magnitude \<open>2^1024\<close> and more, which are
  \<open>Infinity\<close> in the code, do not arise from the numbers formed here.
\<close>

definition pow2 :: "int \<Rightarrow> rat" where
  "pow2 e = (if 0 \<le> e then 2 ^ nat e else 1 / 2 ^ nat (- e))"

text \<open>For \<open>x > 0\<close>, the \<open>e\<close> with \<open>2^e \<le> x < 2^(e+1)\<close>.\<close>

definition ilog2 :: "rat \<Rightarrow> int" where
  "ilog2 x =
     (let k = bitlen (fst (quotient_of x)) - bitlen (snd (quotient_of x))
      in if pow2 k \<le> x then k else k - 1)"

definition round_even :: "rat \<Rightarrow> int" where
  "round_even x =
     (let f = \<lfloor>x\<rfloor>; d = x - of_int f
      in if d < 1 / 2 then f
         else if 1 / 2 < d then f + 1
         else if even f then f else f + 1)"

definition expo :: "rat \<Rightarrow> int" where
  "expo a = max (ilog2 a) (- 1022)"

definition rd :: "rat \<Rightarrow> rat" where
  "rd x =
     (if x = 0 then 0
      else let a = \<bar>x\<bar>; u = pow2 (expo a - 52)
           in sgn x * (of_int (round_even (a / u)) * u))"

text \<open>The same rounding computed on the numerator and the denominator of \<open>x\<close>:
  \<open>round_div n m\<close> is \<open>n / m\<close> rounded to the nearest integer, ties to even, and
  \<open>fit p q k\<close> corrects the estimate \<open>k\<close> of the exponent of \<open>p / q\<close>. It is used to
  evaluate \<open>rd\<close> (lemma \<open>rd_code\<close>).\<close>

definition round_div :: "int \<Rightarrow> int \<Rightarrow> int" where
  "round_div n m =
     (if 2 * (n mod m) < m then n div m
      else if m < 2 * (n mod m) then n div m + 1
      else if even (n div m) then n div m else n div m + 1)"

definition fit :: "int \<Rightarrow> int \<Rightarrow> int \<Rightarrow> int" where
  "fit p q k = (if q * 2 ^ nat k \<le> p * 2 ^ nat (- k) then k else k - 1)"

definition rd_int :: "int \<Rightarrow> int \<Rightarrow> int \<Rightarrow> int \<Rightarrow> rat" where
  "rd_int sg p q s =
     of_int (sg * round_div (p * 2 ^ nat (- s)) (q * 2 ^ nat s) * 2 ^ nat s) /
     of_int (2 ^ nat (- s))"

fun rd_frac :: "int \<times> int \<Rightarrow> rat" where
  "rd_frac (p, q) =
     (if p = 0 then 0
      else rd_int (sgn p) \<bar>p\<bar> q (max (fit \<bar>p\<bar> q (bitlen \<bar>p\<bar> - bitlen q)) (- 1022) - 52))"

section \<open>Content-based scorer\<close>

text \<open>
  \<open>calculateContentSimilarity\<close> divides the length of a filtered list by the length of
  the list itself. The numerator never exceeds the denominator, so the only division by
  zero is \<open>0 / 0\<close>, which JavaScript evaluates to \<open>NaN\<close>. A number is therefore either a
  finite double or \<open>NaN\<close>; \<open>NaN\<close> is absorbing under \<open>+\<close>, \<open>*\<close> and \<open>/\<close>, and every
  comparison with it is false.
\<close>

datatype jsnum = Num rat | NaN

fun js_add :: "jsnum \<Rightarrow> jsnum \<Rightarrow> jsnum" where
  "js_add (Num a) (Num b) = Num (rd (a + b))"
| "js_add _ _ = NaN"

fun js_mul :: "jsnum \<Rightarrow> jsnum \<Rightarrow> jsnum" where
  "js_mul (Num a) (Num b) = Num (rd (a * b))"
| "js_mul _ _ = NaN"

text \<open>Division by a finite, non-zero weight.\<close>

fun js_div :: "jsnum \<Rightarrow> rat \<Rightarrow> jsnum" where
  "js_div (Num a) w = Num (rd (a / w))"
| "js_div NaN w = NaN"

fun js_gt :: "jsnum \<Rightarrow> rat \<Rightarrow> bool" where
  "js_gt (Num a) b = (b < a)"
| "js_gt NaN b = False"

text \<open>\<open>xs.filter(x => prefs.includes(x)).length / xs.length\<close>\<close>

definition overlap_ratio :: "string list \<Rightarrow> string list \<Rightarrow> jsnum" where
  "overlap_ratio xs prefs =
     (let matching = filter (\<lambda>x. x \<in> set prefs) xs
      in if length xs = 0 then NaN
         else Num (rd (of_nat (length matching) / of_nat (length xs))))"

text \<open>The argument of \<open>calculateContentSimilarity\<close> is an exam or an opportunity; a
  field the document does not carry is \<open>None\<close> (\<open>undefined\<close>, falsy).\<close>

record item =
  item_subjects :: "string list option"
  item_skills_required :: "string list option"
  item_domain :: "string list option"
  item_company :: "string option"
  item_organizer :: "string option"

definition exam_item :: "exam \<Rightarrow> item" where
  "exam_item e =
     \<lparr>item_subjects = Some (exam_subjects e), item_skills_required = None,
      item_domain = None, item_company = None, item_organizer = None\<rparr>"

definition opp_item :: "opportunity \<Rightarrow> item" where
  "opp_item p =
     \<lparr>item_subjects = None, item_skills_required = Some (opp_skills_required p),
      item_domain = opp_domain p, item_company = opp_company p,
      item_organizer = opp_organizer p\<rparr>"

record preferences =
  pref_subjects :: "string list"
  pref_skills :: "string list"
  pref_domains :: "string list"
  pref_examTypes :: "string list"
  pref_companies :: "string list"
  pref_organizers :: "string list"

text \<open>A list facet: \<open>score += ratio * w; totalWeight += w\<close> when the field is present.\<close>

definition list_facet ::
    "string list option \<Rightarrow> string list \<Rightarrow> rat \<Rightarrow> jsnum \<times> rat \<Rightarrow> jsnum \<times> rat" where
  "list_facet field prefs w st =
     (case field of
        Some xs \<Rightarrow>
          (js_add (fst st) (js_mul (overlap_ratio xs prefs) (Num w)), rd (snd st + w))
      | None \<Rightarrow> st)"

text \<open>Company and organizer: counted only when the field is truthy (present and not
  the empty string) and among the preferences.\<close>

definition exact_facet ::
    "string option \<Rightarrow> string list \<Rightarrow> jsnum \<times> rat \<Rightarrow> jsnum \<times> rat" where
  "exact_facet field prefs st =
     (case field of
        Some c \<Rightarrow> (if c \<noteq> [] \<and> c \<in> set prefs
                   then (js_add (fst st) (Num (rd (1 / 10))), rd (snd st + rd (1 / 10)))
                   else st)
      | None \<Rightarrow> st)"

definition calculateContentSimilarity :: "item \<Rightarrow> preferences \<Rightarrow> jsnum" where
  "calculateContentSimilarity it prefs =
     (let st0 = (Num 0, 0);
          st1 = list_facet (item_subjects it) (pref_subjects prefs) (rd (4 / 10)) st0;
          st2 = list_facet (item_skills_required it) (pref_skills prefs) (rd (3 / 10)) st1;
          st3 = list_facet (item_domain it) (pref_domains prefs) (rd (2 / 10)) st2;
          st4 = exact_facet (item_company it) (pref_companies prefs) st3;
          st5 = exact_facet (item_organizer it) (pref_organizers prefs) st4
      in if 0 < snd st5 then js_div (fst st5) (snd st5) else Num 0)"

text \<open>\<open>Set.add\<close> followed by \<open>Array.from\<close>: insertion order, no duplicates.\<close>

definition set_add :: "'a list \<Rightarrow> 'a \<Rightarrow> 'a list" where
  "set_add s x = (if x \<in> set s then s else s @ [x])"

definition add_truthy :: "string list \<Rightarrow> string option \<Rightarrow> string list" where
  "add_truthy s field =
     (case field of Some c \<Rightarrow> (if c \<noteq> [] then set_add s c else s) | None \<Rightarrow> s)"

definition savedOpps :: "user \<Rightarrow> oid list" where
  "savedOpps u = saved_hackathons u @ saved_internships u"

definition analyzeUserPreferences :: "exam list \<Rightarrow> opportunity list \<Rightarrow> user \<Rightarrow> preferences" where
  "analyzeUserPreferences exs ops u =
     (let found_exams = (if 0 < length (saved_exams u)
                         then filter (\<lambda>e. exam_id e \<in> set (saved_exams u)) exs else []);
          found_opps = (if 0 < length (savedOpps u)
                        then filter (\<lambda>p. opp_id p \<in> set (savedOpps u)) ops else [])
      in \<lparr>pref_subjects = foldl (\<lambda>s e. foldl set_add s (exam_subjects e)) [] found_exams,
          pref_skills = foldl (\<lambda>s p. foldl set_add s (opp_skills_required p)) [] found_opps,
          pref_domains =
            foldl (\<lambda>s p. case opp_domain p of Some ds \<Rightarrow> foldl set_add s ds | None \<Rightarrow> s)
                  [] found_opps,
          pref_examTypes = foldl (\<lambda>s e. set_add s (exam_type e)) [] found_exams,
          pref_companies = foldl (\<lambda>s p. add_truthy s (opp_company p)) [] found_opps,
          pref_organizers = foldl (\<lambda>s p. add_truthy s (opp_organizer p)) [] found_opps\<rparr>)"

text \<open>The query of \<open>findSimilarExams\<close>; \<open>{$in: prefs}\<close> on an array field holds when
  some element of the field is among \<open>prefs\<close>.\<close>

definition similar_exam_query :: "oid list \<Rightarrow> preferences \<Rightarrow> date \<Rightarrow> exam \<Rightarrow> bool" where
  "similar_exam_query savedExams prefs now e =
     (exam_upcoming now e \<and> exam_id e \<notin> set savedExams \<and>
      (0 < length (pref_subjects prefs) \<longrightarrow>
         (\<exists>s \<in> set (exam_subjects e). s \<in> set (pref_subjects prefs))) \<and>
      (0 < length (pref_examTypes prefs) \<longrightarrow> exam_type e \<in> set (pref_examTypes prefs)))"

definition findSimilarExams :: "exam list \<Rightarrow> date \<Rightarrow> oid list \<Rightarrow> preferences \<Rightarrow> exam list" where
  "findSimilarExams exs now savedExams prefs =
     take 20 (filter (similar_exam_query savedExams prefs now) exs)"

definition similar_opp_query :: "oid list \<Rightarrow> preferences \<Rightarrow> date \<Rightarrow> opportunity \<Rightarrow> bool" where
  "similar_opp_query savedOpportunities prefs now p =
     (opp_open now p \<and> opp_id p \<notin> set savedOpportunities \<and>
      (0 < length (pref_skills prefs) \<longrightarrow>
         (\<exists>s \<in> set (opp_skills_required p). s \<in> set (pref_skills prefs))) \<and>
      (0 < length (pref_domains prefs) \<longrightarrow>
         (case opp_domain p of
            Some ds \<Rightarrow> \<exists>d \<in> set ds. d \<in> set (pref_domains prefs)
          | None \<Rightarrow> False)))"

definition findSimilarOpportunities ::
    "opportunity list \<Rightarrow> date \<Rightarrow> oid list \<Rightarrow> preferences \<Rightarrow> opportunity list" where
  "findSimilarOpportunities ops now savedOpportunities prefs =
     take 30 (filter (similar_opp_query savedOpportunities prefs now) ops)"

text \<open>One iteration of each loop. \<open>NaN > 0.7\<close> is false, so a \<open>NaN\<close> similarity pushes
  nothing and a pushed score is always a finite number.\<close>

definition content_exam_reasons :: reasons where
  "content_exam_reasons =
     [(''Similar to your saved exams'', 4 / 10), (''Matches your preferences'', 3 / 10)]"

definition content_opp_reasons :: reasons where
  "content_opp_reasons =
     [(''Similar to your saved opportunities'', 4 / 10),
      (''Matches your preferences'', 3 / 10)]"

definition content_exam_step :: "user \<Rightarrow> preferences \<Rightarrow> rec list \<Rightarrow> exam \<Rightarrow> rec list" where
  "content_exam_step u prefs recommendations e =
     (case calculateContentSimilarity (exam_item e) prefs of
        Num s \<Rightarrow>
          (if rd (7 / 10) < s
           then recommendations @
                [exam_rec u e s ContentBased content_exam_reasons]
           else recommendations)
      | NaN \<Rightarrow> recommendations)"

definition content_opp_step ::
    "user \<Rightarrow> preferences \<Rightarrow> rec list \<Rightarrow> opportunity \<Rightarrow> rec list" where
  "content_opp_step u prefs recommendations p =
     (case calculateContentSimilarity (opp_item p) prefs of
        Num s \<Rightarrow>
          (if rd (7 / 10) < s
           then recommendations @
                [opp_rec u p s ContentBased content_opp_reasons]
           else recommendations)
      | NaN \<Rightarrow> recommendations)"

definition generateContentBasedRecommendations ::
    "exam list \<Rightarrow> opportunity list \<Rightarrow> date \<Rightarrow> user \<Rightarrow> rec list" where
  "generateContentBasedRecommendations exs ops now u =
     (let savedExams = saved_exams u;
          savedOpportunities = savedOpps u;
          userPreferences = analyzeUserPreferences exs ops u
      in if user_role u = School \<and> 0 < length savedExams
         then foldl (content_exam_step u userPreferences) []
                (findSimilarExams exs now savedExams userPreferences)
         else if user_role u = University \<and> 0 < length savedOpportunities
         then foldl (content_opp_step u userPreferences) []
                (findSimilarOpportunities ops now savedOpportunities userPreferences)
         else [])"

section \<open>Collaborative-filtering scorer\<close>

text \<open>\<open>User.findByInterests(interests).find({_id: {$ne: user._id}}).limit(20)\<close>\<close>

definition findSimilarUsers :: "user list \<Rightarrow> user \<Rightarrow> user list" where
  "findSimilarUsers users u =
     take 20 (filter (\<lambda>v. (\<exists>i \<in> set (interests v). i \<in> set (interests u)) \<and>
                            user_is_active v \<and> user_id v \<noteq> user_id u) users)"

text \<open>\<open>User.find({_id: {$in: similarUserIds}})\<close>\<close>

definition similarUsersData :: "user list \<Rightarrow> user list \<Rightarrow> user list" where
  "similarUsersData users similarUsers =
     filter (\<lambda>v. user_id v \<in> set (map user_id similarUsers)) users"

text \<open>\<open>populate\<close>: each saved id is replaced by its document; ids without a document
  are dropped.\<close>

definition populate_exams :: "exam list \<Rightarrow> oid list \<Rightarrow> exam list" where
  "populate_exams exs ids = List.map_filter (\<lambda>i. find (\<lambda>e. exam_id e = i) exs) ids"

definition populate_opps :: "opportunity list \<Rightarrow> oid list \<Rightarrow> opportunity list" where
  "populate_opps ops ids = List.map_filter (\<lambda>i. find (\<lambda>p. opp_id p = i) ops) ids"

text \<open>The tables \<open>popularExams\<close> and \<open>popularOpportunities\<close>: an object keyed by id,
  in insertion order, each value a count and the document first seen under the key.
  A missing key is created with count 0 and then incremented.\<close>

fun tally :: "(oid \<times> nat \<times> 'a) list \<Rightarrow> oid \<Rightarrow> 'a \<Rightarrow> (oid \<times> nat \<times> 'a) list" where
  "tally [] k x = [(k, 1, x)]"
| "tally ((k', c, y) # rest) k x =
     (if k' = k then (k', c + 1, y) # rest else (k', c, y) # tally rest k x)"

definition neighbour_exams :: "exam list \<Rightarrow> user list \<Rightarrow> exam list" where
  "neighbour_exams exs dat = concat (map (\<lambda>v. populate_exams exs (saved_exams v)) dat)"

definition neighbour_opps :: "opportunity list \<Rightarrow> user list \<Rightarrow> opportunity list" where
  "neighbour_opps ops dat =
     concat (map (\<lambda>v. populate_opps ops (saved_hackathons v) @
                       populate_opps ops (saved_internships v)) dat)"

definition popularExams :: "exam list \<Rightarrow> user list \<Rightarrow> (oid \<times> nat \<times> exam) list" where
  "popularExams exs dat =
     foldl (\<lambda>t similarUser.
              foldl (\<lambda>t e. tally t (exam_id e) e) t
                    (populate_exams exs (saved_exams similarUser)))
           [] dat"

definition popularOpportunities ::
    "opportunity list \<Rightarrow> user list \<Rightarrow> (oid \<times> nat \<times> opportunity) list" where
  "popularOpportunities ops dat =
     foldl (\<lambda>t similarUser.
              foldl (\<lambda>t p. tally t (opp_id p) p) t
                    (populate_opps ops (saved_hackathons similarUser) @
                     populate_opps ops (saved_internships similarUser)))
           [] dat"

definition collab_reasons :: reasons where
  "collab_reasons = [(''Popular among users like you'', 5 / 10)]"

text \<open>The exam loop tests \<open>user.saved_exams.includes(exam._id)\<close> on the
  \<open>MongooseArray\<close> itself, which compares ObjectIds by value.\<close>

definition collab_exam_step ::
    "user \<Rightarrow> nat \<Rightarrow> rec list \<Rightarrow> oid \<times> nat \<times> exam \<Rightarrow> rec list" where
  "collab_exam_step u n recommendations entry =
     (case entry of (k, count, e) \<Rightarrow>
        if 2 \<le> count \<and> exam_id e \<notin> set (saved_exams u)
        then recommendations @
             [exam_rec u e (min (rd (of_nat count / of_nat n)) 1) CollaborativeFiltering
                collab_reasons]
        else recommendations)"

text \<open>
  The opportunity loop first spreads the learner's two saved lists into a plain array,
  \<open>userSavedOpps\<close>, and calls \<open>Array.prototype.includes\<close> on it. On objects that is a
  comparison by identity: the array includes an object only if one of its entries is
  that very object, whatever the values. An ObjectId object is therefore modelled with
  its identity, which is where it lives: it is an entry of the learner's saved lists, or
  the \<open>_id\<close> of a document hydrated by \<open>populate\<close>.
\<close>

datatype identity = SavedEntry nat | PopulatedId

type_synonym objectid = "identity \<times> oid"

definition userSavedOpps :: "user \<Rightarrow> objectid list" where
  "userSavedOpps u = map (\<lambda>(k, v). (SavedEntry k, v)) (enumerate 0 (savedOpps u))"

definition plain_includes :: "objectid list \<Rightarrow> objectid \<Rightarrow> bool" where
  "plain_includes xs y = (y \<in> set xs)"

definition collab_opp_step ::
    "user \<Rightarrow> nat \<Rightarrow> rec list \<Rightarrow> oid \<times> nat \<times> opportunity \<Rightarrow> rec list" where
  "collab_opp_step u n recommendations entry =
     (case entry of (k, count, p) \<Rightarrow>
        if 2 \<le> count \<and> \<not> plain_includes (userSavedOpps u) (PopulatedId, opp_id p)
        then recommendations @
             [opp_rec u p (min (rd (of_nat count / of_nat n)) 1) CollaborativeFiltering
                collab_reasons]
        else recommendations)"

definition generateCollaborativeFilteringRecommendations ::
    "user list \<Rightarrow> exam list \<Rightarrow> opportunity list \<Rightarrow> user \<Rightarrow> rec list" where
  "generateCollaborativeFilteringRecommendations users exs ops u =
     (let similarUsers = findSimilarUsers users u
      in if length similarUsers = 0 then []
         else let dat = similarUsersData users similarUsers
              in if user_role u = School
                 then foldl (collab_exam_step u (length similarUsers)) []
                        (popularExams exs dat)
                 else foldl (collab_opp_step u (length similarUsers)) []
                        (popularOpportunities ops dat))"

section \<open>Hybrid merge\<close>

text \<open>The \<open>Map\<close> \<open>uniqueRecommendations\<close>: keys in insertion order. The key string
  \<open>entity_type + '_' + entity_id\<close> determines the pair it is built from.\<close>

type_synonym rec_key = "entity \<times> oid"

definition rec_key :: "rec \<Rightarrow> rec_key" where
  "rec_key r = (entity_type r, entity_id r)"

text \<open>\<open>existing.score = (existing.score + rec.score) / 2\<close>: the sum is rounded to a
  double, then the quotient.\<close>

definition average_into :: "rec \<Rightarrow> rec \<Rightarrow> rec" where
  "average_into existing r =
     existing\<lparr>score := rd (rd (score existing + score r) / 2),
              algorithm_used := Hybrid,
              recommendation_reasons :=
                recommendation_reasons existing @ recommendation_reasons r\<rparr>"

fun map_merge :: "(rec_key \<times> rec) list \<Rightarrow> rec_key \<Rightarrow> rec \<Rightarrow> (rec_key \<times> rec) list" where
  "map_merge [] k r = [(k, r)]"
| "map_merge ((k', existing) # m) k r =
     (if k' = k then (k', average_into existing r) # m
      else (k', existing) # map_merge m k r)"

definition uniqueRecommendations :: "rec list \<Rightarrow> (rec_key \<times> rec) list" where
  "uniqueRecommendations allRecommendations =
     foldl (\<lambda>m r. map_merge m (rec_key r) r) [] allRecommendations"

text \<open>\<open>Array.prototype.sort\<close> is stable; the comparator \<open>b.score - a.score\<close> orders by
  descending score (the rounded difference of two doubles has the sign of the exact
  difference). \<open>sort_key\<close> is the stable insertion sort.\<close>

definition merge_recommendations :: "rec list \<Rightarrow> rec list" where
  "merge_recommendations allRecommendations =
     take 50 (sort_key (\<lambda>r. - score r) (map snd (uniqueRecommendations allRecommendations)))"

definition generateHybridRecommendations ::
    "user list \<Rightarrow> exam list \<Rightarrow> opportunity list \<Rightarrow> date \<Rightarrow> user \<Rightarrow> rec list" where
  "generateHybridRecommendations users exs ops now u =
     (let ruleBased = generateRuleBasedRecommendations exs ops now u;
          contentBased = generateContentBasedRecommendations exs ops now u;
          collaborative = generateCollaborativeFilteringRecommendations users exs ops u
      in merge_recommendations (ruleBased @ contentBased @ collaborative))"

section \<open>Recommendation store\<close>

text \<open>A stored recommendation document: the inserted fields plus the schema defaults.\<close>

record stored =
  doc_id :: oid
  doc :: rec
  viewed :: bool
  saved :: bool
  applied :: bool
  viewed_at :: "date option"
  saved_at :: "date option"
  applied_at :: "date option"
  expires_at :: date
  is_active :: bool
  created_at :: date

record db =
  db_users :: "user list"
  db_exams :: "exam list"
  db_opportunities :: "opportunity list"
  db_recommendations :: "stored list"
  db_next_id :: oid

datatype error = BadRequest string | NotFound string | Thrown string

definition thirty_days :: int where
  "thirty_days = 30 * 24 * 60 * 60 * 1000"

definition new_document :: "date \<Rightarrow> oid \<Rightarrow> rec \<Rightarrow> stored" where
  "new_document now i r =
     \<lparr>doc_id = i, doc = r, viewed = False, saved = False, applied = False,
      viewed_at = None, saved_at = None, applied_at = None,
      expires_at = now + thirty_days, is_active = True, created_at = now\<rparr>"

text \<open>\<open>Recommendation.insertMany\<close>: fresh consecutive ids, appended to the collection.\<close>

definition insertMany :: "date \<Rightarrow> rec list \<Rightarrow> db \<Rightarrow> db" where
  "insertMany now rs d =
     d\<lparr>db_recommendations :=
          db_recommendations d @
          map (\<lambda>(i, r). new_document now i r)
              (zip [db_next_id d ..< db_next_id d + length rs] rs),
       db_next_id := db_next_id d + length rs\<rparr>"

text \<open>\<open>Recommendation.deleteMany({user_id})\<close>\<close>

definition deleteMany :: "oid \<Rightarrow> db \<Rightarrow> db" where
  "deleteMany uid d =
     d\<lparr>db_recommendations := filter (\<lambda>s. rec_user_id (doc s) \<noteq> uid) (db_recommendations d)\<rparr>"

definition findUserById :: "db \<Rightarrow> oid \<Rightarrow> user option" where
  "findUserById d uid = find (\<lambda>u. user_id u = uid) (db_users d)"

subsection \<open>The service: \<open>RecommendationService.generateRecommendations\<close>\<close>

definition service_generateRecommendations ::
    "db \<Rightarrow> date \<Rightarrow> oid \<Rightarrow> string \<Rightarrow> db \<times> (error + rec list)" where
  "service_generateRecommendations d now userId alg =
     (case findUserById d userId of
        None \<Rightarrow> (d, Inl (Thrown ''User not found''))
      | Some u \<Rightarrow>
          (let chosen =
                 (if alg = ''rule_based''
                  then Some (generateRuleBasedRecommendations (db_exams d) (db_opportunities d) now u)
                  else if alg = ''content_based''
                  then Some (generateContentBasedRecommendations
                               (db_exams d) (db_opportunities d) now u)
                  else if alg = ''collaborative_filtering''
                  then Some (generateCollaborativeFilteringRecommendations
                               (db_users d) (db_exams d) (db_opportunities d) u)
                  else if alg = ''hybrid''
                  then Some (generateHybridRecommendations
                               (db_users d) (db_exams d) (db_opportunities d) now u)
                  else None)
           in case chosen of
                None \<Rightarrow> (d, Inl (Thrown ''Invalid algorithm specified''))
              | Some recommendations \<Rightarrow>
                  ((if 0 < length recommendations then insertMany now recommendations d else d),
                   Inr recommendations)))"

subsection \<open>The controller: \<open>generateRecommendations\<close>\<close>

definition fixed_exam_reasons :: reasons where
  "fixed_exam_reasons =
     [(''Matches your academic stream'', 3 / 10), (''Aligns with your interests'', 2 / 10)]"

definition fixed_opp_reasons :: reasons where
  "fixed_opp_reasons =
     [(''Matches your interests'', 3 / 10), (''Suitable for your degree and year'', 2 / 10)]"

definition ctl_exam_score :: "user \<Rightarrow> exam \<Rightarrow> rat" where
  "ctl_exam_score u e =
     (let s0 = 5 / 10;
          s1 = (if school_stream u = Some ''Science'' \<and>
                   (''Physics'' \<in> set (exam_subjects e) \<or> ''Chemistry'' \<in> set (exam_subjects e) \<or>
                    ''Maths'' \<in> set (exam_subjects e))
                then s0 + 3 / 10 else s0);
          s2 = (if 0 < length (interests u)
                then s1 + of_nat (length (exam_matchingInterests u e)) / of_nat (length (interests u))
                            * (2 / 10)
                else s1)
      in s2)"

definition ctl_opp_score :: "user \<Rightarrow> opportunity \<Rightarrow> rat" where
  "ctl_opp_score u p =
     (let s0 = 5 / 10;
          s1 = (if 0 < length (interests u)
                then s0 + of_nat (length (opp_matchingInterests u p)) / of_nat (length (interests u))
                            * (3 / 10)
                else s0);
          s2 = (if opp_type p = Internship \<and>
                   ((case education_degree u of
                       Some dg \<Rightarrow> dg \<in> set (opp_degree_required p) | None \<Rightarrow> False) \<or>
                    ''Any'' \<in> set (opp_degree_required p))
                then s1 + 2 / 10 else s1);
          s3 = (if opp_type p = Internship \<and>
                   ((case education_year u of
                       Some y \<Rightarrow> y \<in> set (opp_year_of_study p) | None \<Rightarrow> False) \<or>
                    0 \<in> set (opp_year_of_study p))
                then s2 + 2 / 10 else s2)
      in s3)"

definition ctl_exam_step :: "user \<Rightarrow> rec list \<Rightarrow> exam \<Rightarrow> rec list" where
  "ctl_exam_step u newRecommendations e =
     (if 6 / 10 < ctl_exam_score u e
      then newRecommendations @
           [exam_rec u e (min (ctl_exam_score u e) 1) RuleBased fixed_exam_reasons]
      else newRecommendations)"

definition ctl_opp_step :: "user \<Rightarrow> rec list \<Rightarrow> opportunity \<Rightarrow> rec list" where
  "ctl_opp_step u newRecommendations p =
     (if 6 / 10 < ctl_opp_score u p
      then newRecommendations @
           [opp_rec u p (min (ctl_opp_score u p) 1) RuleBased fixed_opp_reasons]
      else newRecommendations)"

definition ctl_newRecommendations :: "db \<Rightarrow> date \<Rightarrow> user \<Rightarrow> rec list" where
  "ctl_newRecommendations d now u =
     (if user_role u = School
      then foldl (ctl_exam_step u) [] (take 20 (filter (exam_upcoming now) (db_exams d)))
      else foldl (ctl_opp_step u) [] (take 30 (filter (opp_open now) (db_opportunities d))))"

text \<open>The response carries \<open>recommendations_generated\<close>.\<close>

definition controller_generateRecommendations ::
    "db \<Rightarrow> date \<Rightarrow> oid \<Rightarrow> db \<times> (error + nat)" where
  "controller_generateRecommendations d now userId =
     (case findUserById d userId of
        None \<Rightarrow> (d, Inl (NotFound ''User not found''))
      | Some u \<Rightarrow>
          (let d1 = deleteMany userId d;
               newRecommendations = ctl_newRecommendations d1 now u;
               d2 = (if 0 < length newRecommendations
                     then insertMany now newRecommendations d1 else d1)
           in (d2, Inr (length newRecommendations))))"

subsection \<open>Interactions\<close>

datatype interaction = Viewed | Saved | Applied

text \<open>\<open>['viewed', 'saved', 'applied'].includes(interactionType)\<close>\<close>

definition parse_interaction :: "string \<Rightarrow> interaction option" where
  "parse_interaction t =
     (if t = ''viewed'' then Some Viewed
      else if t = ''saved'' then Some Saved
      else if t = ''applied'' then Some Applied
      else None)"

text \<open>The \<open>$set\<close> of \<open>updateInteraction\<close>: the flag becomes true and the timestamp
  becomes the current time.\<close>

fun set_interaction :: "interaction \<Rightarrow> date \<Rightarrow> stored \<Rightarrow> stored" where
  "set_interaction Viewed now s = s\<lparr>viewed := True, viewed_at := Some now\<rparr>"
| "set_interaction Saved now s = s\<lparr>saved := True, saved_at := Some now\<rparr>"
| "set_interaction Applied now s = s\<lparr>applied := True, applied_at := Some now\<rparr>"

text \<open>\<open>findByIdAndUpdate(id, update, {new: true})\<close>: the first document with the id is
  updated and returned; \<open>null\<close> when there is none.\<close>

fun findByIdAndUpdate ::
    "oid \<Rightarrow> (stored \<Rightarrow> stored) \<Rightarrow> stored list \<Rightarrow> stored list \<times> stored option" where
  "findByIdAndUpdate i f [] = ([], None)"
| "findByIdAndUpdate i f (s # ss) =
     (if doc_id s = i then (f s # ss, Some (f s))
      else (case findByIdAndUpdate i f ss of (ss', res) \<Rightarrow> (s # ss', res)))"

definition updateInteraction ::
    "oid \<Rightarrow> interaction \<Rightarrow> date \<Rightarrow> stored list \<Rightarrow> stored list \<times> stored option" where
  "updateInteraction recommendationId interactionType now ss =
     findByIdAndUpdate recommendationId (set_interaction interactionType now) ss"

definition updateRecommendationInteraction ::
    "db \<Rightarrow> date \<Rightarrow> oid \<Rightarrow> string \<Rightarrow> db \<times> (error + stored)" where
  "updateRecommendationInteraction d now i interactionType =
     (case parse_interaction interactionType of
        None \<Rightarrow> (d, Inl (BadRequest ''Invalid interaction type''))
      | Some k \<Rightarrow>
          (case updateInteraction i k now (db_recommendations d) of
             (ss, None) \<Rightarrow> (d\<lparr>db_recommendations := ss\<rparr>, Inl (NotFound ''Recommendation not found''))
           | (ss, Some recommendation) \<Rightarrow> (d\<lparr>db_recommendations := ss\<rparr>, Inr recommendation)))"

section \<open>Definitions used to state the properties\<close>

text \<open>Reading the store: the document with an id, and the keys of the active
  records, of all learners and of one.\<close>

definition find_stored :: "db \<Rightarrow> oid \<Rightarrow> stored option" where
  "find_stored d i = find (\<lambda>s. doc_id s = i) (db_recommendations d)"

definition active_keys :: "db \<Rightarrow> (oid \<times> entity \<times> oid) list" where
  "active_keys d =
     map (\<lambda>s. (rec_user_id (doc s), entity_type (doc s), entity_id (doc s)))
         (filter is_active (db_recommendations d))"

definition active_keys_of :: "oid \<Rightarrow> db \<Rightarrow> (oid \<times> entity \<times> oid) list" where
  "active_keys_of uid d = filter (\<lambda>k. fst k = uid) (active_keys d)"

text \<open>A list of recommendations holds a record for the offering \<open>(t, i)\<close>.\<close>

definition emitted :: "rec list \<Rightarrow> entity \<Rightarrow> oid \<Rightarrow> bool" where
  "emitted rs t i = (\<exists>r \<in> set rs. entity_type r = t \<and> entity_id r = i)"

text \<open>The flag and the timestamp of an interaction kind.\<close>

fun flag :: "interaction \<Rightarrow> stored \<Rightarrow> bool" where
  "flag Viewed s = viewed s"
| "flag Saved s = saved s"
| "flag Applied s = applied s"

fun stamp :: "interaction \<Rightarrow> stored \<Rightarrow> date option" where
  "stamp Viewed s = viewed_at s"
| "stamp Saved s = saved_at s"
| "stamp Applied s = applied_at s"

text \<open>The range of a score.\<close>

definition in_unit :: "rat \<Rightarrow> bool" where
  "in_unit s = (0 \<le> s \<and> s \<le> 1)"

text \<open>The rule-based score without the interest term: base, stage alignment and
  popularity only.\<close>

definition exam_static_score :: "user \<Rightarrow> exam \<Rightarrow> rat" where
  "exam_static_score u e =
     5 / 10 +
     (if school_stream u = Some ''Science'' \<and> exam_matchingSubjects e \<noteq> [] then 3 / 10 else 0) +
     (if (case exam_application_count e of Some n \<Rightarrow> 100 < n | None \<Rightarrow> False)
      then 1 / 10 else 0)"

definition opp_static_score :: "user \<Rightarrow> opportunity \<Rightarrow> rat" where
  "opp_static_score u p =
     5 / 10 +
     (if opp_type p = Internship \<and>
         ((case education_degree u of
             Some d \<Rightarrow> d \<in> set (opp_degree_required p) | None \<Rightarrow> False) \<or>
          ''Any'' \<in> set (opp_degree_required p))
      then 2 / 10 else 0) +
     (if opp_type p = Internship \<and>
         ((case education_year u of
             Some y \<Rightarrow> y \<in> set (opp_year_of_study p) | None \<Rightarrow> False) \<or>
          0 \<in> set (opp_year_of_study p))
      then 2 / 10 else 0) +
     (if 50 < opp_application_count p then 1 / 10 else 0)"

text \<open>The finite value of a number (\<open>NaN\<close> is never emitted), and the similarity of
  an exam and of an opportunity.\<close>

fun num_of :: "jsnum \<Rightarrow> rat" where
  "num_of (Num a) = a"
| "num_of NaN = 0"

definition exam_similarity :: "preferences \<Rightarrow> exam \<Rightarrow> jsnum" where
  "exam_similarity prefs e = calculateContentSimilarity (exam_item e) prefs"

definition opp_similarity :: "preferences \<Rightarrow> opportunity \<Rightarrow> jsnum" where
  "opp_similarity prefs p = calculateContentSimilarity (opp_item p) prefs"

text \<open>The candidates the content-based scorer evaluates.\<close>

definition content_exam_candidates :: "exam list \<Rightarrow> opportunity list \<Rightarrow> date \<Rightarrow> user \<Rightarrow> exam list" where
  "content_exam_candidates exs ops now u =
     findSimilarExams exs now (saved_exams u) (analyzeUserPreferences exs ops u)"

definition content_opp_candidates ::
    "exam list \<Rightarrow> opportunity list \<Rightarrow> date \<Rightarrow> user \<Rightarrow> opportunity list" where
  "content_opp_candidates exs ops now u =
     findSimilarOpportunities ops now (savedOpps u) (analyzeUserPreferences exs ops u)"

text \<open>An item carries a list facet that is present but empty.\<close>

definition empty_facet :: "item \<Rightarrow> bool" where
  "empty_facet it =
     (item_subjects it = Some [] \<or> item_skills_required it = Some [] \<or> item_domain it = Some [])"

text \<open>The content-based similarity as a weighted average over the facets used, each
  entry a weight and a ratio, every operation rounded to double precision: the ratio of a
  list facet, the product of ratio and weight, the two running sums from left to right,
  and the final quotient.\<close>

definition ratio :: "string list \<Rightarrow> string list \<Rightarrow> rat" where
  "ratio xs prefs =
     rd (of_nat (length (filter (\<lambda>x. x \<in> set prefs) xs)) / of_nat (length xs))"

definition list_entry :: "string list option \<Rightarrow> string list \<Rightarrow> rat \<Rightarrow> (rat \<times> rat) list" where
  "list_entry field prefs w =
     (case field of Some xs \<Rightarrow> [(w, ratio xs prefs)] | None \<Rightarrow> [])"

definition exact_entry :: "string option \<Rightarrow> string list \<Rightarrow> (rat \<times> rat) list" where
  "exact_entry field prefs =
     (case field of
        Some c \<Rightarrow> (if c \<noteq> [] \<and> c \<in> set prefs then [(rd (1 / 10), 1)] else [])
      | None \<Rightarrow> [])"

definition facets_used :: "item \<Rightarrow> preferences \<Rightarrow> (rat \<times> rat) list" where
  "facets_used it prefs =
     list_entry (item_subjects it) (pref_subjects prefs) (rd (4 / 10)) @
     list_entry (item_skills_required it) (pref_skills prefs) (rd (3 / 10)) @
     list_entry (item_domain it) (pref_domains prefs) (rd (2 / 10)) @
     exact_entry (item_company it) (pref_companies prefs) @
     exact_entry (item_organizer it) (pref_organizers prefs)"

definition weighted_sum :: "(rat \<times> rat) list \<Rightarrow> rat" where
  "weighted_sum fs = foldl (\<lambda>s (w, r). rd (s + rd (r * w))) 0 fs"

definition weight_total :: "(rat \<times> rat) list \<Rightarrow> rat" where
  "weight_total fs = foldl (\<lambda>t (w, r). rd (t + w)) 0 fs"

definition weighted_similarity :: "(rat \<times> rat) list \<Rightarrow> rat" where
  "weighted_similarity fs = (if fs = [] then 0 else rd (weighted_sum fs / weight_total fs))"

text \<open>The accumulator of \<open>calculateContentSimilarity\<close> after the facets \<open>fs\<close>, and the
  range of the entries.\<close>

definition facet_sums :: "(rat \<times> rat) list \<Rightarrow> jsnum \<times> rat" where
  "facet_sums fs = (Num (weighted_sum fs), weight_total fs)"

definition good_entries :: "(rat \<times> rat) list \<Rightarrow> bool" where
  "good_entries fs =
     (\<forall>(w, r) \<in> set fs. rd w = w \<and> rd (1 / 10) \<le> w \<and> 0 \<le> r \<and> r \<le> 1)"

text \<open>The claim's reading of company and organizer: a facet the candidate has counts
  in the denominator even when it does not match.\<close>

definition claimed_exact_entry :: "string option \<Rightarrow> string list \<Rightarrow> (rat \<times> rat) list" where
  "claimed_exact_entry field prefs =
     (case field of
        Some c \<Rightarrow>
          (if c \<noteq> [] then [(rd (1 / 10), if c \<in> set prefs then 1 else 0)] else [])
      | None \<Rightarrow> [])"

definition claimed_facets :: "item \<Rightarrow> preferences \<Rightarrow> (rat \<times> rat) list" where
  "claimed_facets it prefs =
     list_entry (item_subjects it) (pref_subjects prefs) (rd (4 / 10)) @
     list_entry (item_skills_required it) (pref_skills prefs) (rd (3 / 10)) @
     list_entry (item_domain it) (pref_domains prefs) (rd (2 / 10)) @
     claimed_exact_entry (item_company it) (pref_companies prefs) @
     claimed_exact_entry (item_organizer it) (pref_organizers prefs)"

text \<open>An object or \<open>Map\<close> used as an insertion-ordered table: update the value under an
  existing key, or append a new entry.\<close>

fun upsert :: "('k \<times> 'v) list \<Rightarrow> 'k \<Rightarrow> ('v \<Rightarrow> 'v) \<Rightarrow> 'v \<Rightarrow> ('k \<times> 'v) list" where
  "upsert [] k f v = [(k, v)]"
| "upsert ((k', x) # m) k f v =
     (if k' = k then (k', f x) # m else (k', x) # upsert m k f v)"

text \<open>The elements that are the first of their key, in order of appearance.\<close>

definition first_seen :: "('a \<Rightarrow> 'k) \<Rightarrow> 'a list \<Rightarrow> 'a list" where
  "first_seen key xs =
     foldl (\<lambda>acc x. if key x \<in> key ` set acc then acc else acc @ [x]) [] xs"

definition count_by :: "('a \<Rightarrow> 'k) \<Rightarrow> 'k \<Rightarrow> 'a list \<Rightarrow> nat" where
  "count_by key k xs = length (filter (\<lambda>x. key x = k) xs)"

text \<open>The occurrences of the key of \<open>e\<close> after the first one.\<close>

definition later_same :: "('a \<Rightarrow> 'k) \<Rightarrow> 'a \<Rightarrow> 'a list \<Rightarrow> 'a list" where
  "later_same key e xs = tl (filter (\<lambda>y. key y = key e) xs)"

text \<open>The value a table holds for the key of \<open>e\<close>: the initial value of the first
  occurrence, updated by each later occurrence in turn.\<close>

definition group_value :: "('a \<Rightarrow> 'k) \<Rightarrow> ('a \<Rightarrow> 'v \<Rightarrow> 'v) \<Rightarrow> ('a \<Rightarrow> 'v) \<Rightarrow> 'a list \<Rightarrow> 'a \<Rightarrow> 'v" where
  "group_value key upd init xs e = foldl (\<lambda>v y. upd y v) (init e) (later_same key e xs)"

text \<open>The table of the merge: for each key in order of first appearance, the first
  occurrence averaged in turn with each later occurrence.\<close>

definition merged :: "rec list \<Rightarrow> rec list" where
  "merged xs =
     map (\<lambda>e. foldl average_into e (later_same rec_key e xs)) (first_seen rec_key xs)"



section \<open>Sample data\<close>

text \<open>A Science student with two interests, and two upcoming exams.\<close>

definition school_user :: user where
  "school_user =
     \<lparr>user_id = 1, user_role = School, education_degree = None, education_year = None,
      school_stream = Some ''Science'', interests = [''Physics'', ''History''],
      saved_exams = [], saved_hackathons = [], saved_internships = [], user_is_active = True\<rparr>"

text \<open>The same learner with no declared interests; nothing is saved.\<close>

definition cold_user :: user where
  "cold_user = school_user\<lparr>interests := []\<rparr>"

definition physics_exam :: exam where
  "physics_exam =
     \<lparr>exam_id = 10, exam_name = ''National Physics Olympiad'', exam_type = ''government'',
      exam_subjects = [''Physics'', ''Chemistry''], exam_event_dates = [100],
      exam_is_active = True, exam_application_count = None\<rparr>"

text \<open>An exam on which a Science student with interests Physics and History scores
  \<open>0.5 + (1/2) * 0.2 = 0.6\<close> exactly: no science subject, one interest of two in the name.\<close>

definition history_exam :: exam where
  "history_exam =
     \<lparr>exam_id = 11, exam_name = ''History Talent Search'', exam_type = ''private'',
      exam_subjects = [''Civics''], exam_event_dates = [100],
      exam_is_active = True, exam_application_count = None\<rparr>"

text \<open>A store holding one recommendation of the physics exam.\<close>

definition sample_rec :: rec where
  "sample_rec = exam_rec school_user physics_exam (9 / 10) RuleBased []"

definition sample_db :: db where
  "sample_db =
     \<lparr>db_users = [school_user], db_exams = [physics_exam, history_exam],
      db_opportunities = [], db_recommendations = [new_document 0 1 sample_rec],
      db_next_id = 2\<rparr>"

text \<open>The same store with its only document retired.\<close>

definition retired_db :: db where
  "retired_db =
     \<lparr>db_users = [school_user], db_exams = [physics_exam, history_exam],
      db_opportunities = [],
      db_recommendations = [(new_document 0 1 sample_rec)\<lparr>is_active := False\<rparr>],
      db_next_id = 2\<rparr>"

text \<open>A store with the sample catalogue and no recommendations yet.\<close>

definition fresh_db :: db where
  "fresh_db = sample_db\<lparr>db_recommendations := [], db_next_id := 1\<rparr>"

text \<open>A university learner who saved one internship, and a small catalogue.\<close>

definition uni_user :: user where
  "uni_user =
     \<lparr>user_id = 2, user_role = University, education_degree = Some ''BTech'',
      education_year = Some 2, school_stream = None, interests = [''Python''],
      saved_exams = [], saved_hackathons = [], saved_internships = [20],
      user_is_active = True\<rparr>"

definition initech_internship :: opportunity where
  "initech_internship =
     \<lparr>opp_id = 20, opp_title = ''Backend intern'', opp_type = Internship,
      opp_organizer = None, opp_company = Some ''Initech'', opp_domain = Some [''Web''],
      opp_skills_required = [''Python''], opp_degree_required = [''BTech''],
      opp_year_of_study = [2], opp_deadline = 100, opp_is_active = True,
      opp_application_count = 0\<rparr>"

definition acme_internship :: opportunity where
  "acme_internship =
     \<lparr>opp_id = 21, opp_title = ''Data intern'', opp_type = Internship,
      opp_organizer = None, opp_company = Some ''Acme'', opp_domain = Some [''Web'', ''AI''],
      opp_skills_required = [''Python''], opp_degree_required = [''MTech''],
      opp_year_of_study = [4], opp_deadline = 100, opp_is_active = True,
      opp_application_count = 0\<rparr>"

text \<open>Two internships that list no skills.\<close>

definition blank_internship :: opportunity where
  "blank_internship =
     \<lparr>opp_id = 22, opp_title = ''Open intern'', opp_type = Internship,
      opp_organizer = None, opp_company = Some ''Initech'', opp_domain = Some [''Web''],
      opp_skills_required = [], opp_degree_required = [''MTech''],
      opp_year_of_study = [4], opp_deadline = 100, opp_is_active = True,
      opp_application_count = 0\<rparr>"

definition hollow_internship :: opportunity where
  "hollow_internship =
     \<lparr>opp_id = 23, opp_title = ''Any intern'', opp_type = Internship,
      opp_organizer = None, opp_company = Some ''Initech'', opp_domain = Some [''Web''],
      opp_skills_required = [], opp_degree_required = [''MTech''],
      opp_year_of_study = [4], opp_deadline = 100, opp_is_active = True,
      opp_application_count = 0\<rparr>"

definition sample_opps :: "opportunity list" where
  "sample_opps = [initech_internship, acme_internship, blank_internship, hollow_internship]"

text \<open>A learner whose only saved opportunity lists no skills.\<close>

definition blank_saver :: user where
  "blank_saver = uni_user\<lparr>user_id := 4, saved_internships := [22]\<rparr>"

text \<open>Two neighbours of the university learner who both saved the Acme internship, and
  one who saved it twice, once as a hackathon and once as an internship.\<close>

definition go_user :: user where
  "go_user =
     \<lparr>user_id = 3, user_role = University, education_degree = Some ''BSc'',
      education_year = Some 1, school_stream = None, interests = [''Go'', ''Python''],
      saved_exams = [], saved_hackathons = [], saved_internships = [21],
      user_is_active = True\<rparr>"

definition web_user :: user where
  "web_user =
     \<lparr>user_id = 5, user_role = University, education_degree = Some ''BSc'',
      education_year = Some 3, school_stream = None, interests = [''Python''],
      saved_exams = [], saved_hackathons = [21], saved_internships = [20],
      user_is_active = True\<rparr>"

definition double_saver :: user where
  "double_saver =
     \<lparr>user_id = 6, user_role = University, education_degree = Some ''BSc'',
      education_year = Some 3, school_stream = None, interests = [''Python''],
      saved_exams = [], saved_hackathons = [21], saved_internships = [21],
      user_is_active = True\<rparr>"

definition sample_users :: "user list" where
  "sample_users = [uni_user, go_user, web_user]"

text \<open>A learner who saved an internship with two skills, and an internship that lists
  these two skills among five, in the same domain and at the same company: its similarity
  is \<open>((2/5) * 0.3 + 0.2 + 0.1) / 0.6\<close>.\<close>

definition stack_internship :: opportunity where
  "stack_internship =
     \<lparr>opp_id = 24, opp_title = ''Stack intern'', opp_type = Internship,
      opp_organizer = None, opp_company = Some ''Initech'', opp_domain = Some [''Web''],
      opp_skills_required = [''Python'', ''SQL''], opp_degree_required = [''BTech''],
      opp_year_of_study = [2], opp_deadline = 100, opp_is_active = True,
      opp_application_count = 0\<rparr>"

definition broad_internship :: opportunity where
  "broad_internship =
     \<lparr>opp_id = 25, opp_title = ''Platform intern'', opp_type = Internship,
      opp_organizer = None, opp_company = Some ''Initech'', opp_domain = Some [''Web''],
      opp_skills_required = [''Python'', ''SQL'', ''Go'', ''Rust'', ''Java''],
      opp_degree_required = [''MTech''], opp_year_of_study = [4], opp_deadline = 100,
      opp_is_active = True, opp_application_count = 0\<rparr>"

definition stack_saver :: user where
  "stack_saver = uni_user\<lparr>user_id := 7, saved_internships := [24]\<rparr>"



text \<open>Recommendations of the exams 10 and 11 at given scores.\<close>

definition scored :: "oid \<Rightarrow> rat \<Rightarrow> rec" where
  "scored i s =
     \<lparr>rec_user_id = 1, entity_type = Exam, entity_id = i, entity_type_ref = ''Exam'',
      score = s, algorithm_used = RuleBased, recommendation_reasons = []\<rparr>"


text \<open>The exam 11 at 0.85, followed by the exam 10 at 0.9 and at 0.8.\<close>

definition near_list :: "rec list" where
  "near_list = [scored 11 (rd (85 / 100)), scored 10 (rd (9 / 10)), scored 10 (rd (8 / 10))]"

section \<open>Properties of the rounding\<close>

lemma pow2_powi: "pow2 e = 2 powi e"
  by (simp add: pow2_def power_int_def inverse_eq_divide power_one_over)

lemma pow2_pos: "0 < pow2 e"
  by (simp add: pow2_powi)

lemma pow2_add: "pow2 (a + b) = pow2 a * pow2 b"
  by (simp add: pow2_powi power_int_add)

lemma pow2_mono: "a \<le> b \<Longrightarrow> pow2 a \<le> pow2 b"
  by (simp add: pow2_powi power_int_increasing)

lemma pow2_nat: "pow2 (int n) = 2 ^ n"
  by (simp add: pow2_powi)

lemma pow2_split_53: "pow2 (e + 1) = pow2 53 * pow2 (e - 52)"
proof -
  have "e + 1 = 53 + (e - 52)" by simp
  then show ?thesis by (simp only: pow2_add)
qed

lemma pow2_split_52: "pow2 e = pow2 52 * pow2 (e - 52)"
proof -
  have "e = 52 + (e - 52)" by simp
  then show ?thesis using pow2_add [of 52 "e - 52"] by simp
qed

lemma rd_0: "rd 0 = 0"
  by (simp add: rd_def)

lemma ilog2_bounds:
  assumes "0 < x"
  shows "pow2 (ilog2 x) \<le> x \<and> x < pow2 (ilog2 x + 1)"
proof -
  obtain p q where pq: "quotient_of x = (p, q)" by (cases "quotient_of x")
  then have q: "0 < q" and x: "x = of_int p / of_int q"
    by (simp_all add: quotient_of_denom_pos quotient_of_div)
  from assms q x have p: "0 < p" by (simp add: zero_less_divide_iff)
  define bp where "bp = bitlen p"
  define bq where "bq = bitlen q"
  have bp1: "1 \<le> bp" and bq1: "1 \<le> bq"
    using p q by (simp_all add: bp_def bq_def bitlen_alt_def)
  from bitlen_bounds [OF p] have "p < 2 ^ nat bp" by (simp add: bp_def)
  then have "(of_int p :: rat) < of_int (2 ^ nat bp)" by (simp only: of_int_less_iff)
  then have pu: "(of_int p :: rat) < pow2 bp"
    using bp1 by (simp add: pow2_def)
  from bitlen_bounds [OF q] have "2 ^ nat (bq - 1) \<le> q" by (simp add: bq_def)
  then have "(of_int (2 ^ nat (bq - 1)) :: rat) \<le> of_int q" by (simp only: of_int_le_iff)
  then have ql: "pow2 (bq - 1) \<le> (of_int q :: rat)"
    using bq1 by (simp add: pow2_def)
  have "x < pow2 bp / pow2 (bq - 1)"
  proof -
    have "x \<le> of_int p / pow2 (bq - 1)"
      unfolding x using ql p pow2_pos [of "bq - 1"] by (simp add: frac_le)
    also have "\<dots> < pow2 bp / pow2 (bq - 1)"
      using pu pow2_pos [of "bq - 1"] by (simp add: divide_strict_right_mono)
    finally show ?thesis .
  qed
  also have "pow2 bp / pow2 (bq - 1) = pow2 (bp - bq + 1)"
    using pow2_add [of "bp - bq + 1" "bq - 1"] pow2_pos [of "bq - 1"] by (simp add: field_simps)
  finally have up: "x < pow2 (bp - bq + 1)" .
  from bitlen_bounds [OF p] have "2 ^ nat (bp - 1) \<le> p" by (simp add: bp_def)
  then have "(of_int (2 ^ nat (bp - 1)) :: rat) \<le> of_int p" by (simp only: of_int_le_iff)
  then have pl: "pow2 (bp - 1) \<le> (of_int p :: rat)"
    using bp1 by (simp add: pow2_def)
  from bitlen_bounds [OF q] have "q < 2 ^ nat bq" by (simp add: bq_def)
  then have "(of_int q :: rat) < of_int (2 ^ nat bq)" by (simp only: of_int_less_iff)
  then have qu: "(of_int q :: rat) < pow2 bq"
    using bq1 by (simp add: pow2_def)
  have "pow2 (bp - 1) / pow2 bq < x"
  proof -
    have "pow2 (bp - 1) / pow2 bq < pow2 (bp - 1) / of_int q"
      using qu q pow2_pos [of "bp - 1"] by (simp add: divide_strict_left_mono)
    also have "\<dots> \<le> x"
      unfolding x using pl q by (simp add: divide_right_mono)
    finally show ?thesis .
  qed
  moreover have "pow2 (bp - 1) / pow2 bq = pow2 (bp - bq - 1)"
    using pow2_add [of "bp - bq - 1" "bq"] pow2_pos [of bq] by (simp add: field_simps)
  ultimately have lo: "pow2 (bp - bq - 1) < x" by simp
  have k: "ilog2 x = (if pow2 (bp - bq) \<le> x then bp - bq else bp - bq - 1)"
    by (simp add: ilog2_def pq bp_def bq_def Let_def)
  show ?thesis
  proof (cases "pow2 (bp - bq) \<le> x")
    case True
    with k up show ?thesis by simp
  next
    case False
    with k lo show ?thesis by simp
  qed
qed

lemma ilog2_mono:
  assumes "0 < x" and "x \<le> y"
  shows "ilog2 x \<le> ilog2 y"
proof (rule ccontr)
  assume "\<not> ilog2 x \<le> ilog2 y"
  then have "ilog2 y + 1 \<le> ilog2 x" by simp
  then have "pow2 (ilog2 y + 1) \<le> pow2 (ilog2 x)" by (rule pow2_mono)
  moreover from assms have "0 < y" by simp
  from ilog2_bounds [OF this] have "y < pow2 (ilog2 y + 1)" by simp
  moreover from ilog2_bounds [OF assms(1)] have "pow2 (ilog2 x) \<le> x" by simp
  ultimately show False using assms(2) by simp
qed

lemma round_even_of_int: "round_even (of_int k) = k"
  by (simp add: round_even_def)

lemma round_even_bounds: "\<lfloor>x\<rfloor> \<le> round_even x \<and> round_even x \<le> \<lfloor>x\<rfloor> + 1"
  by (simp add: round_even_def Let_def)

lemma round_even_mono:
  assumes "x \<le> y"
  shows "round_even x \<le> round_even y"
proof (cases "\<lfloor>x\<rfloor> = \<lfloor>y\<rfloor>")
  case True
  from assms have "x - of_int \<lfloor>x\<rfloor> \<le> y - of_int \<lfloor>x\<rfloor>" by simp
  then show ?thesis
    unfolding round_even_def Let_def True [symmetric] by auto
next
  case False
  from assms have "\<lfloor>x\<rfloor> \<le> \<lfloor>y\<rfloor>" by (rule floor_mono)
  with False have "\<lfloor>x\<rfloor> + 1 \<le> \<lfloor>y\<rfloor>" by simp
  with round_even_bounds [of x] round_even_bounds [of y] show ?thesis by linarith
qed

lemma round_even_nonneg: "0 \<le> x \<Longrightarrow> 0 \<le> round_even x"
  using round_even_mono [of 0 x] round_even_of_int [of 0] by simp

lemma rd_pos:
  "0 < x \<Longrightarrow> rd x = of_int (round_even (x / pow2 (expo x - 52))) * pow2 (expo x - 52)"
  by (simp add: rd_def Let_def)

lemma rd_nonneg: "0 \<le> x \<Longrightarrow> 0 \<le> rd x"
proof (cases "x = 0")
  case True
  then show ?thesis by (simp add: rd_def)
next
  case False
  assume "0 \<le> x"
  with False have x: "0 < x" by simp
  have "0 \<le> x / pow2 (expo x - 52)"
    using x pow2_pos [of "expo x - 52"] by simp
  then have "0 \<le> round_even (x / pow2 (expo x - 52))" by (rule round_even_nonneg)
  then show ?thesis
    unfolding rd_pos [OF x] using pow2_pos [of "expo x - 52"] by simp
qed

lemma expo_mono: "0 < x \<Longrightarrow> x \<le> y \<Longrightarrow> expo x \<le> expo y"
  unfolding expo_def using ilog2_mono [of x y] by simp

lemma rd_upper:
  assumes "0 < x"
  shows "rd x \<le> pow2 (expo x + 1)"
proof -
  let ?u = "pow2 (expo x - 52)"
  have u: "0 < ?u" by (rule pow2_pos)
  have "ilog2 x + 1 \<le> expo x + 1" by (simp add: expo_def)
  then have "pow2 (ilog2 x + 1) \<le> pow2 (expo x + 1)" by (rule pow2_mono)
  with ilog2_bounds [OF assms] have "x \<le> pow2 (expo x + 1)" by simp
  also have "pow2 (expo x + 1) = pow2 53 * ?u"
    by (rule pow2_split_53)
  finally have "x / ?u \<le> pow2 53" using u by (simp add: pos_divide_le_eq)
  also have "pow2 53 = of_int (2 ^ 53)" by (simp add: pow2_def)
  finally have "round_even (x / ?u) \<le> round_even (of_int (2 ^ 53))" by (rule round_even_mono)
  then have "round_even (x / ?u) \<le> 2 ^ 53" by (simp only: round_even_of_int)
  then have "(of_int (round_even (x / ?u)) :: rat) \<le> of_int (2 ^ 53)"
    by (simp only: of_int_le_iff)
  then have "of_int (round_even (x / ?u)) * ?u \<le> of_int (2 ^ 53) * ?u"
    using u by (simp only: mult_le_cancel_right_pos)
  also have "(of_int (2 ^ 53) :: rat) = pow2 53" by (simp add: pow2_def)
  also have "pow2 53 * ?u = pow2 (expo x + 1)"
    by (rule pow2_split_53 [symmetric])
  finally show ?thesis unfolding rd_pos [OF assms] .
qed

lemma rd_lower:
  assumes "0 < y" and "expo y = ilog2 y"
  shows "pow2 (expo y) \<le> rd y"
proof -
  let ?u = "pow2 (expo y - 52)"
  have u: "0 < ?u" by (rule pow2_pos)
  have "pow2 (expo y) = pow2 52 * ?u"
    by (rule pow2_split_52)
  moreover from ilog2_bounds [OF assms(1)] assms(2) have "pow2 (expo y) \<le> y" by simp
  ultimately have "pow2 52 \<le> y / ?u" using u by (simp add: pos_le_divide_eq)
  moreover have "pow2 52 = of_int (2 ^ 52)" by (simp add: pow2_def)
  ultimately have "round_even (of_int (2 ^ 52)) \<le> round_even (y / ?u)"
    by (simp only: round_even_mono)
  then have "2 ^ 52 \<le> round_even (y / ?u)" by (simp only: round_even_of_int)
  then have "(of_int (2 ^ 52) :: rat) \<le> of_int (round_even (y / ?u))"
    by (simp only: of_int_le_iff)
  then have "of_int (2 ^ 52) * ?u \<le> of_int (round_even (y / ?u)) * ?u"
    using u by (simp only: mult_le_cancel_right_pos)
  moreover have "(of_int (2 ^ 52) :: rat) * ?u = pow2 (expo y)"
    using pow2_split_52 [of "expo y"] by (simp add: pow2_def)
  ultimately show ?thesis unfolding rd_pos [OF assms(1)] by simp
qed

lemma rd_mono:
  assumes "0 \<le> x" and "x \<le> y"
  shows "rd x \<le> rd y"
proof (cases "x = 0")
  case True
  from assms have "0 \<le> y" by simp
  from rd_nonneg [OF this] True show ?thesis by (simp add: rd_0)
next
  case False
  with assms have x: "0 < x" and y: "0 < y" by simp_all
  show ?thesis
  proof (cases "expo x = expo y")
    case True
    let ?u = "pow2 (expo y - 52)"
    have u: "0 < ?u" by (rule pow2_pos)
    from assms(2) u have "x / ?u \<le> y / ?u" by (simp add: divide_right_mono)
    then have "round_even (x / ?u) \<le> round_even (y / ?u)" by (rule round_even_mono)
    then have "(of_int (round_even (x / ?u)) :: rat) \<le> of_int (round_even (y / ?u))"
      by (simp only: of_int_le_iff)
    then have "of_int (round_even (x / ?u)) * ?u \<le> of_int (round_even (y / ?u)) * ?u"
      using u by (simp only: mult_le_cancel_right_pos)
    then show ?thesis unfolding rd_pos [OF x] rd_pos [OF y] True .
  next
    case False
    with expo_mono [OF x assms(2)] have lt: "expo x + 1 \<le> expo y" by simp
    have "- 1022 \<le> expo x" by (simp add: expo_def)
    with lt have "expo y = ilog2 y" by (simp add: expo_def max_def split: if_splits)
    from rd_lower [OF y this] have "pow2 (expo y) \<le> rd y" .
    moreover from lt have "pow2 (expo x + 1) \<le> pow2 (expo y)" by (rule pow2_mono)
    moreover note rd_upper [OF x]
    ultimately show ?thesis by simp
  qed
qed

lemma round_even_div:
  assumes "0 < m"
  shows "round_even (of_int n / of_int m) = round_div n m"
proof -
  let ?x = "of_int n / of_int m :: rat"
  have f: "\<lfloor>?x\<rfloor> = n div m" by (rule floor_divide_of_int_eq)
  have m: "(0 :: rat) < of_int m" using assms by simp
  have "m * (n div m) + n mod m = n" by simp
  then have "(of_int (m * (n div m) + n mod m) :: rat) = of_int n" by (simp only:)
  then have "(of_int m :: rat) * of_int (n div m) + of_int (n mod m) = of_int n"
    by (simp only: of_int_add of_int_mult)
  then have d: "?x - of_int (n div m) = of_int (n mod m) / of_int m"
    using m by (simp add: field_simps)
  have lt: "of_int (n mod m) / of_int m < (1 / 2 :: rat) \<longleftrightarrow> 2 * (n mod m) < m"
  proof -
    have "of_int (n mod m) / of_int m < (1 / 2 :: rat) \<longleftrightarrow>
          (of_int (2 * (n mod m)) :: rat) < of_int m"
      using m by (simp add: field_simps)
    also have "\<dots> \<longleftrightarrow> 2 * (n mod m) < m" by (simp only: of_int_less_iff)
    finally show ?thesis .
  qed
  have gt: "(1 / 2 :: rat) < of_int (n mod m) / of_int m \<longleftrightarrow> m < 2 * (n mod m)"
  proof -
    have "(1 / 2 :: rat) < of_int (n mod m) / of_int m \<longleftrightarrow>
          (of_int m :: rat) < of_int (2 * (n mod m))"
      using m by (simp add: field_simps)
    also have "\<dots> \<longleftrightarrow> m < 2 * (n mod m)" by (simp only: of_int_less_iff)
    finally show ?thesis .
  qed
  show ?thesis
    unfolding round_even_def Let_def f d lt gt round_div_def ..
qed

lemma scaled_quotient:
  assumes "0 < q"
  shows "(of_int p / of_int q :: rat) / pow2 s =
         of_int (p * 2 ^ nat (- s)) / of_int (q * 2 ^ nat s)"
proof (cases "0 \<le> s")
  case True
  then show ?thesis by (simp add: pow2_def)
next
  case False
  then show ?thesis by (simp add: pow2_def)
qed

lemma pow2_quotient: "pow2 s = of_int (2 ^ nat s) / of_int (2 ^ nat (- s))"
  by (cases "0 \<le> s") (simp_all add: pow2_def)

lemma pow2_le_quotient:
  assumes "0 < q"
  shows "pow2 k \<le> of_int p / of_int q \<longleftrightarrow> q * 2 ^ nat k \<le> p * 2 ^ nat (- k)"
proof -
  have q: "(0 :: rat) < of_int q" using assms by simp
  have "pow2 k \<le> of_int p / of_int q \<longleftrightarrow>
        (of_int (q * 2 ^ nat k) :: rat) \<le> of_int (p * 2 ^ nat (- k))"
    using q by (cases "0 \<le> k") (simp_all add: pow2_def field_simps)
  also have "\<dots> \<longleftrightarrow> q * 2 ^ nat k \<le> p * 2 ^ nat (- k)" by (simp only: of_int_le_iff)
  finally show ?thesis .
qed

lemma ilog2_code:
  assumes "quotient_of x = (p, q)"
  shows "ilog2 x = fit p q (bitlen p - bitlen q)"
proof -
  from assms have q: "0 < q" and x: "x = of_int p / of_int q"
    by (simp_all add: quotient_of_denom_pos quotient_of_div)
  show ?thesis
    unfolding ilog2_def assms Let_def fst_conv snd_conv fit_def
    unfolding x pow2_le_quotient [OF q] ..
qed

text \<open>The rounding is evaluated on integers.\<close>

lemma rd_code [code]: "rd x = rd_frac (quotient_of x)"
proof -
  obtain p q where pq: "quotient_of x = (p, q)" by (cases "quotient_of x")
  then have q: "0 < q" and x: "x = of_int p / of_int q"
    by (simp_all add: quotient_of_denom_pos quotient_of_div)
  show ?thesis
  proof (cases "p = 0")
    case True
    with x pq show ?thesis by (simp add: rd_def)
  next
    case False
    with q have x0: "x \<noteq> 0" by (simp add: x)
    have qa: "quotient_of \<bar>x\<bar> = (\<bar>p\<bar>, q)" by (simp add: rat_abs_code pq)
    define s where "s = max (fit \<bar>p\<bar> q (bitlen \<bar>p\<bar> - bitlen q)) (- 1022) - 52"
    have e: "expo \<bar>x\<bar> - 52 = s"
      by (simp add: expo_def ilog2_code [OF qa] s_def)
    have a: "\<bar>x\<bar> = of_int \<bar>p\<bar> / of_int q" using q by (simp add: x)
    have sg: "sgn x = of_int (sgn p)"
      using q by (simp add: x sgn_if zero_less_divide_iff divide_less_0_iff)
    have m: "0 < q * 2 ^ nat s" using q by simp
    have "\<bar>x\<bar> / pow2 s = of_int (\<bar>p\<bar> * 2 ^ nat (- s)) / of_int (q * 2 ^ nat s)"
      unfolding a by (rule scaled_quotient [OF q])
    then have r: "round_even (\<bar>x\<bar> / pow2 s) = round_div (\<bar>p\<bar> * 2 ^ nat (- s)) (q * 2 ^ nat s)"
      by (simp only: round_even_div [OF m])
    have "rd x = sgn x * (of_int (round_even (\<bar>x\<bar> / pow2 s)) * pow2 s)"
      using x0 by (simp add: rd_def Let_def e)
    also have "\<dots> = rd_int (sgn p) \<bar>p\<bar> q s"
      unfolding r sg rd_int_def by (simp add: pow2_quotient [of s])
    finally show ?thesis using False pq by (simp add: s_def)
  qed
qed

lemma rd_1: "rd 1 = 1"
  by code_simp

lemma rd_le_1: "0 \<le> x \<Longrightarrow> x \<le> 1 \<Longrightarrow> rd x \<le> 1"
  using rd_mono [of x 1] by (simp add: rd_1)

lemma rd_ge: "rd c = c \<Longrightarrow> 0 \<le> c \<Longrightarrow> c \<le> x \<Longrightarrow> c \<le> rd x"
  using rd_mono [of c x] by simp

lemma round_even_error: "\<bar>of_int (round_even y) - y\<bar> \<le> 1 / 2"
proof -
  define f where "f = \<lfloor>y\<rfloor>"
  define d where "d = y - of_int f"
  have d: "0 \<le> d" "d < 1" unfolding d_def f_def by linarith+
  have y: "y = of_int f + d" by (simp add: d_def)
  have "round_even y = f \<and> d \<le> 1 / 2 \<or> round_even y = f + 1 \<and> 1 / 2 \<le> d"
    unfolding round_even_def Let_def f_def [symmetric] d_def [symmetric] by auto
  then show ?thesis
  proof
    assume "round_even y = f \<and> d \<le> 1 / 2"
    with d show ?thesis unfolding y by simp
  next
    assume "round_even y = f + 1 \<and> 1 / 2 \<le> d"
    with d show ?thesis unfolding y by simp
  qed
qed

text \<open>The rounded value is a multiple of the spacing at the exponent of \<open>x\<close>, with a
  significand of at most 53 bits, and lies within half that spacing of \<open>x\<close>.\<close>

lemma rd_error:
  assumes "0 < x"
  shows "\<bar>rd x - x\<bar> \<le> pow2 (expo x - 52) / 2"
proof -
  let ?u = "pow2 (expo x - 52)"
  have u: "0 < ?u" by (rule pow2_pos)
  have "rd x - x = (of_int (round_even (x / ?u)) - x / ?u) * ?u"
    unfolding rd_pos [OF assms] using u by (simp add: field_simps)
  then have "\<bar>rd x - x\<bar> = \<bar>of_int (round_even (x / ?u)) - x / ?u\<bar> * ?u"
    using u by (simp add: abs_mult)
  also have "\<dots> \<le> (1 / 2) * ?u"
    using round_even_error [of "x / ?u"] u by (simp only: mult_le_cancel_right_pos)
  finally show ?thesis by simp
qed

text \<open>The doubles denoted by the literals of the scorers; \<open>0.1 + 0.2\<close> is not
  \<open>0.3\<close>.\<close>

lemma rd_literals:
  "rd (1 / 10) = 3602879701896397 / 36028797018963968"
  "rd (7 / 10) = 3152519739159347 / 4503599627370496"
  "rd (rd (1 / 10) + rd (2 / 10)) = rd (3 / 10) + 1 / 2 ^ 54"
  by code_simp+

lemma rd_tenth: "rd (rd (1 / 10)) = rd (1 / 10)"
  by code_simp

lemma rd_tenth_nonneg: "0 \<le> rd (1 / 10)"
  by (rule rd_nonneg) simp

lemma rd_tenth_pos: "0 < rd (1 / 10)"
  by code_simp

lemma rd_weights:
  "rd (rd (4 / 10)) = rd (4 / 10)" "rd (rd (3 / 10)) = rd (3 / 10)"
  "rd (rd (2 / 10)) = rd (2 / 10)"
  by code_simp+

lemma rd_weights_le:
  "rd (1 / 10) \<le> rd (4 / 10)" "rd (1 / 10) \<le> rd (3 / 10)" "rd (1 / 10) \<le> rd (2 / 10)"
  by (rule rd_mono; simp)+

lemma rd_2: "rd 2 = 2"
  by code_simp

lemma ilog2_less:
  assumes "0 < x" and "x < pow2 k"
  shows "ilog2 x < k"
proof (rule ccontr)
  assume "\<not> ilog2 x < k"
  then have "pow2 k \<le> pow2 (ilog2 x)" by (simp add: pow2_mono)
  with ilog2_bounds [OF assms(1)] assms(2) show False by simp
qed

lemma rd_error_below_4:
  assumes "0 \<le> x" and "x < 4"
  shows "\<bar>rd x - x\<bar> \<le> 1 / 2 ^ 52"
proof (cases "x = 0")
  case True
  then show ?thesis by (simp add: rd_0)
next
  case False
  with assms have x: "0 < x" by simp
  have "pow2 2 = 4" by (simp add: pow2_def)
  with assms(2) have "x < pow2 2" by simp
  from ilog2_less [OF x this] have "expo x - 52 \<le> - 51" by (simp add: expo_def)
  then have "pow2 (expo x - 52) \<le> pow2 (- 51)" by (rule pow2_mono)
  also have "pow2 (- 51) = 1 / 2 ^ 51" by (simp add: pow2_def)
  finally have "pow2 (expo x - 52) / 2 \<le> 1 / 2 ^ 52" by simp
  with rd_error [OF x] show ?thesis by simp
qed

lemma rd_error_below_2:
  assumes "0 \<le> x" and "x < 2"
  shows "\<bar>rd x - x\<bar> \<le> 1 / 2 ^ 53"
proof (cases "x = 0")
  case True
  then show ?thesis by (simp add: rd_0)
next
  case False
  with assms have x: "0 < x" by simp
  have "pow2 1 = 2" by (simp add: pow2_def)
  with assms(2) have "x < pow2 1" by simp
  from ilog2_less [OF x this] have "expo x - 52 \<le> - 52" by (simp add: expo_def)
  then have "pow2 (expo x - 52) \<le> pow2 (- 52)" by (rule pow2_mono)
  also have "pow2 (- 52) = 1 / 2 ^ 52" by (simp add: pow2_def)
  finally have "pow2 (expo x - 52) / 2 \<le> 1 / 2 ^ 53" by simp
  with rd_error [OF x] show ?thesis by simp
qed

text \<open>The double-precision mean of two numbers of the unit interval lies in the unit
  interval, within \<open>2^-52\<close> of the arithmetic mean.\<close>

lemma rd_mean:
  assumes "0 \<le> a" "a \<le> 1" "0 \<le> b" "b \<le> 1"
  shows "0 \<le> rd (rd (a + b) / 2) \<and> rd (rd (a + b) / 2) \<le> 1 \<and>
         \<bar>rd (rd (a + b) / 2) - (a + b) / 2\<bar> \<le> 1 / 2 ^ 52"
proof -
  from assms have s0: "0 \<le> a + b" and s2: "a + b \<le> 2" by simp_all
  have y0: "0 \<le> rd (a + b)" by (rule rd_nonneg [OF s0])
  have y2: "rd (a + b) \<le> 2" using rd_mono [OF s0 s2] by (simp add: rd_2)
  from y0 y2 have z0: "0 \<le> rd (a + b) / 2" and z1: "rd (a + b) / 2 \<le> 1" by simp_all
  have r0: "0 \<le> rd (rd (a + b) / 2)" by (rule rd_nonneg [OF z0])
  have r1: "rd (rd (a + b) / 2) \<le> 1" by (rule rd_le_1 [OF z0 z1])
  from s2 have "a + b < 4" by simp
  from rd_error_below_4 [OF s0 this] have e1: "\<bar>rd (a + b) - (a + b)\<bar> \<le> 1 / 2 ^ 52" .
  from z1 have "rd (a + b) / 2 < 2" by simp
  from rd_error_below_2 [OF z0 this]
  have e2: "\<bar>rd (rd (a + b) / 2) - rd (a + b) / 2\<bar> \<le> 1 / 2 ^ 53" .
  have "rd (a + b) / 2 - (a + b) / 2 = (rd (a + b) - (a + b)) / 2"
    by (simp only: diff_divide_distrib)
  then have h: "\<bar>rd (a + b) / 2 - (a + b) / 2\<bar> = \<bar>rd (a + b) - (a + b)\<bar> / 2"
    by (simp only: abs_divide abs_numeral)
  have "\<bar>rd (a + b) - (a + b)\<bar> / 2 \<le> (1 / 2 ^ 52) / 2"
    using e1 by (rule divide_right_mono) simp
  then have e3: "\<bar>rd (a + b) / 2 - (a + b) / 2\<bar> \<le> 1 / 2 ^ 53"
    unfolding h by simp
  have "\<bar>rd (rd (a + b) / 2) - (a + b) / 2\<bar> \<le>
        \<bar>rd (rd (a + b) / 2) - rd (a + b) / 2\<bar> + \<bar>rd (a + b) / 2 - (a + b) / 2\<bar>"
    by simp
  also have "\<dots> \<le> 1 / 2 ^ 53 + 1 / 2 ^ 53" using e2 e3 by (rule add_mono)
  finally have "\<bar>rd (rd (a + b) / 2) - (a + b) / 2\<bar> \<le> 1 / 2 ^ 52" by simp
  with r0 r1 show ?thesis by blast
qed

section \<open>Properties of the rule-based scorer\<close>

lemma foldl_rule_exam_step:
  "foldl (rule_exam_step u) acc es =
     acc @ map (\<lambda>e. exam_rec u e (min (fst (exam_rule_eval u e)) 1) RuleBased
                       (snd (exam_rule_eval u e)))
               (filter (\<lambda>e. 6 / 10 < fst (exam_rule_eval u e)) es)"
  by (induction es arbitrary: acc) (simp_all add: rule_exam_step_def Let_def)

lemma foldl_rule_opp_step:
  "foldl (rule_opp_step u) acc ps =
     acc @ map (\<lambda>p. opp_rec u p (min (fst (opp_rule_eval u p)) 1) RuleBased
                       (snd (opp_rule_eval u p)))
               (filter (\<lambda>p. 6 / 10 < fst (opp_rule_eval u p)) ps)"
  by (induction ps arbitrary: acc) (simp_all add: rule_opp_step_def Let_def)

lemma emitted_map_filter:
  assumes "distinct (map key xs)" and "x \<in> set xs"
    and "\<And>y. entity_type (mk y) = t \<and> entity_id (mk y) = key y"
  shows "emitted (map mk (filter P xs)) t (key x) \<longleftrightarrow> P x"
proof
  assume "emitted (map mk (filter P xs)) t (key x)"
  then obtain y where y: "y \<in> set xs" "P y" "key y = key x"
    using assms(3) by (auto simp: emitted_def)
  from assms(1) have "inj_on key (set xs)" by (simp add: distinct_map)
  with y(1,3) assms(2) have "y = x" by (auto dest: inj_onD)
  with y(2) show "P x" by simp
next
  assume "P x"
  with assms(2,3) show "emitted (map mk (filter P xs)) t (key x)"
    by (auto simp: emitted_def)
qed

lemma distinct_rule_exam_pool:
  "distinct (map exam_id exs) \<Longrightarrow> distinct (map exam_id (rule_exam_pool now exs))"
  by (simp add: rule_exam_pool_def take_map [symmetric] distinct_map_filter)

lemma distinct_rule_opp_pool:
  "distinct (map opp_id ops) \<Longrightarrow> distinct (map opp_id (rule_opp_pool now ops))"
  by (simp add: rule_opp_pool_def take_map [symmetric] distinct_map_filter)

text \<open>
  Claim C6. A candidate of the rule-based pool is emitted if and only if its accumulated
  score (base 0.5 plus bonuses, in exact arithmetic) is strictly greater than 0.6; a
  candidate scoring exactly 0.6 is therefore excluded. Candidates are identified by their
  ids, which are distinct in the catalogue.
\<close>

theorem rule_based_threshold:
  assumes "distinct (map exam_id exs)" and "distinct (map opp_id ops)"
  shows "(user_role u = School \<longrightarrow>
            (\<forall>e \<in> set (rule_exam_pool now exs).
               emitted (generateRuleBasedRecommendations exs ops now u) Exam (exam_id e)
                 \<longleftrightarrow> 6 / 10 < fst (exam_rule_eval u e))) \<and>
         (user_role u \<noteq> School \<longrightarrow>
            (\<forall>p \<in> set (rule_opp_pool now ops).
               emitted (generateRuleBasedRecommendations exs ops now u) Opportunity (opp_id p)
                 \<longleftrightarrow> 6 / 10 < fst (opp_rule_eval u p)))"
proof (intro conjI impI ballI)
  fix e assume "user_role u = School" and e: "e \<in> set (rule_exam_pool now exs)"
  then have out: "generateRuleBasedRecommendations exs ops now u =
      map (\<lambda>e. exam_rec u e (min (fst (exam_rule_eval u e)) 1) RuleBased
                  (snd (exam_rule_eval u e)))
          (filter (\<lambda>e. 6 / 10 < fst (exam_rule_eval u e)) (rule_exam_pool now exs))"
    by (simp add: generateRuleBasedRecommendations_def foldl_rule_exam_step)
  show "emitted (generateRuleBasedRecommendations exs ops now u) Exam (exam_id e)
          \<longleftrightarrow> 6 / 10 < fst (exam_rule_eval u e)"
    unfolding out
    by (rule emitted_map_filter [OF distinct_rule_exam_pool [OF assms(1)] e])
       (simp add: exam_rec_def)
next
  fix p assume "user_role u \<noteq> School" and p: "p \<in> set (rule_opp_pool now ops)"
  then have out: "generateRuleBasedRecommendations exs ops now u =
      map (\<lambda>p. opp_rec u p (min (fst (opp_rule_eval u p)) 1) RuleBased
                  (snd (opp_rule_eval u p)))
          (filter (\<lambda>p. 6 / 10 < fst (opp_rule_eval u p)) (rule_opp_pool now ops))"
    by (simp add: generateRuleBasedRecommendations_def foldl_rule_opp_step)
  show "emitted (generateRuleBasedRecommendations exs ops now u) Opportunity (opp_id p)
          \<longleftrightarrow> 6 / 10 < fst (opp_rule_eval u p)"
    unfolding out
    by (rule emitted_map_filter [OF distinct_rule_opp_pool [OF assms(2)] p])
       (simp add: opp_rec_def)
qed

lemma history_exam_score: "fst (exam_rule_eval school_user history_exam) = 6 / 10"
  by code_simp

lemma physics_exam_score: "fst (exam_rule_eval school_user physics_exam) = 9 / 10"
  by code_simp

lemma sample_exam_pool:
  "rule_exam_pool 0 [physics_exam, history_exam] = [physics_exam, history_exam]"
  by (simp add: rule_exam_pool_def exam_upcoming_def physics_exam_def history_exam_def)

theorem rule_based_threshold_witness:
  "distinct (map exam_id [physics_exam, history_exam]) \<and>
   distinct (map opp_id []) \<and>
   fst (exam_rule_eval school_user history_exam) = 6 / 10 \<and>
   \<not> emitted (generateRuleBasedRecommendations [physics_exam, history_exam] [] 0 school_user)
        Exam (exam_id history_exam) \<and>
   emitted (generateRuleBasedRecommendations [physics_exam, history_exam] [] 0 school_user)
        Exam (exam_id physics_exam)"
proof -
  have d: "distinct (map exam_id [physics_exam, history_exam])"
    by (simp add: physics_exam_def history_exam_def)
  have d': "distinct (map opp_id [])" by simp
  have r: "user_role school_user = School" by (simp add: school_user_def)
  from rule_based_threshold [OF d d', of school_user 0] r
  show ?thesis
    using d by (simp add: sample_exam_pool history_exam_score physics_exam_score)
qed

section \<open>Properties of the interaction tracker\<close>

lemma doc_id_set_interaction: "doc_id (set_interaction k now s) = doc_id s"
  by (cases k) simp_all

lemma findByIdAndUpdate_find:
  assumes "\<And>s. doc_id (f s) = doc_id s"
  shows "find (\<lambda>s. doc_id s = j) (fst (findByIdAndUpdate i f ss)) =
         (if j = i then map_option f (find (\<lambda>s. doc_id s = i) ss)
          else find (\<lambda>s. doc_id s = j) ss)"
  using assms by (induction ss) (auto split: prod.splits)

lemma findByIdAndUpdate_snd:
  "snd (findByIdAndUpdate i f ss) = map_option f (find (\<lambda>s. doc_id s = i) ss)"
  by (induction ss) (auto split: prod.splits)

lemma findByIdAndUpdate_None:
  "find (\<lambda>s. doc_id s = i) ss = None \<Longrightarrow> findByIdAndUpdate i f ss = (ss, None)"
  by (induction ss) (auto split: if_splits)

lemma findByIdAndUpdate_length:
  "length (fst (findByIdAndUpdate i f ss)) = length ss"
  by (induction ss) (auto split: prod.splits)

lemma flag_set_interaction: "flag k (set_interaction k now s)"
  by (cases k) simp_all

lemma stamp_set_interaction: "stamp k (set_interaction k now s) = Some now"
  by (cases k) simp_all

lemma flag_mono: "flag k' s \<Longrightarrow> flag k' (set_interaction k now s)"
  by (cases k; cases k') simp_all

text \<open>What a call on an existing document does.\<close>

lemma interaction_hit:
  assumes "parse_interaction t = Some k" and "find_stored d i = Some s"
  shows "snd (updateRecommendationInteraction d now i t) = Inr (set_interaction k now s)"
    and "find_stored (fst (updateRecommendationInteraction d now i t)) j =
           (if j = i then Some (set_interaction k now s) else find_stored d j)"
proof -
  obtain ss res where u: "updateInteraction i k now (db_recommendations d) = (ss, res)"
    by (cases "updateInteraction i k now (db_recommendations d)")
  from u have res: "res = Some (set_interaction k now s)"
    using assms(2) findByIdAndUpdate_snd [of i "set_interaction k now" "db_recommendations d"]
    by (simp add: updateInteraction_def find_stored_def)
  from u have ss: "find (\<lambda>s. doc_id s = j) ss =
      (if j = i then Some (set_interaction k now s) else find (\<lambda>s. doc_id s = j) (db_recommendations d))"
    using assms(2)
      findByIdAndUpdate_find [of "set_interaction k now" j i "db_recommendations d",
        OF doc_id_set_interaction]
    by (simp add: updateInteraction_def find_stored_def)
  show "snd (updateRecommendationInteraction d now i t) = Inr (set_interaction k now s)"
    using assms(1) u res by (simp add: updateRecommendationInteraction_def)
  show "find_stored (fst (updateRecommendationInteraction d now i t)) j =
           (if j = i then Some (set_interaction k now s) else find_stored d j)"
    using assms(1) u res ss by (simp add: updateRecommendationInteraction_def find_stored_def)
qed

lemma interaction_miss:
  assumes "parse_interaction t = Some k" and "find_stored d i = None"
  shows "updateRecommendationInteraction d now i t = (d, Inl (NotFound ''Recommendation not found''))"
  using assms findByIdAndUpdate_None [of i "db_recommendations d" "set_interaction k now"]
  by (simp add: updateRecommendationInteraction_def updateInteraction_def find_stored_def)

lemma interaction_invalid:
  assumes "parse_interaction t = None"
  shows "updateRecommendationInteraction d now i t = (d, Inl (BadRequest ''Invalid interaction type''))"
  using assms by (simp add: updateRecommendationInteraction_def)

text \<open>
  Claim C3, as amended. The claim says that a second call with the same kind leaves the
  timestamp at the value of the first call. \<open>updateInteraction\<close> sets the timestamp
  unconditionally, so after calls at \<open>t1\<close> and then \<open>t2\<close> the timestamp is \<open>t2\<close>.
  What holds: after each call the flag of the kind is true and its timestamp is the time
  of that call, and a flag that is true stays true.
\<close>

theorem interaction_overwrites_timestamp:
  assumes "parse_interaction t = Some k" and "find_stored d i = Some s0"
  shows "let d1 = fst (updateRecommendationInteraction d t1 i t);
             d2 = fst (updateRecommendationInteraction d1 t2 i t)
         in find_stored d1 i = Some (set_interaction k t1 s0) \<and>
            find_stored d2 i = Some (set_interaction k t2 (set_interaction k t1 s0)) \<and>
            map_option (stamp k) (find_stored d1 i) = Some (Some t1) \<and>
            map_option (stamp k) (find_stored d2 i) = Some (Some t2) \<and>
            map_option (flag k) (find_stored d1 i) = Some True \<and>
            map_option (flag k) (find_stored d2 i) = Some True \<and>
            (\<forall>k'. flag k' s0 \<longrightarrow>
                   map_option (flag k') (find_stored d1 i) = Some True \<and>
                   map_option (flag k') (find_stored d2 i) = Some True)"
proof -
  define d1 where "d1 = fst (updateRecommendationInteraction d t1 i t)"
  define d2 where "d2 = fst (updateRecommendationInteraction d1 t2 i t)"
  have f1: "find_stored d1 i = Some (set_interaction k t1 s0)"
    unfolding d1_def using interaction_hit(2) [OF assms, of t1 i] by simp
  have f2: "find_stored d2 i = Some (set_interaction k t2 (set_interaction k t1 s0))"
    unfolding d2_def using interaction_hit(2) [OF assms(1) f1, of t2 i] by simp
  show ?thesis
    unfolding Let_def d1_def [symmetric] d2_def [symmetric]
    by (simp add: f1 f2 stamp_set_interaction flag_set_interaction flag_mono)
qed

text \<open>
  Claim C4, as amended. The call succeeds for the three kinds on every document that
  exists, active or not, and sets the flag and the timestamp of the kind there, leaving
  every other document as it was; any other kind is rejected with the invalid-type error;
  the not-found error is returned exactly when no document has the id; on every failing
  call the store is unchanged.
\<close>

theorem record_interaction_outcomes:
  "(parse_interaction t = None \<longrightarrow>
      updateRecommendationInteraction d now i t =
        (d, Inl (BadRequest ''Invalid interaction type''))) \<and>
   (\<forall>k. parse_interaction t = Some k \<longrightarrow>
      (case find_stored d i of
         None \<Rightarrow> updateRecommendationInteraction d now i t =
                   (d, Inl (NotFound ''Recommendation not found''))
       | Some s \<Rightarrow>
           snd (updateRecommendationInteraction d now i t) = Inr (set_interaction k now s) \<and>
           flag k (set_interaction k now s) \<and> stamp k (set_interaction k now s) = Some now \<and>
           (\<forall>j. find_stored (fst (updateRecommendationInteraction d now i t)) j =
                  (if j = i then Some (set_interaction k now s) else find_stored d j)))) \<and>
   (isl (snd (updateRecommendationInteraction d now i t)) \<longrightarrow>
      fst (updateRecommendationInteraction d now i t) = d) \<and>
   (parse_interaction t \<noteq> None \<longleftrightarrow> t \<in> {''viewed'', ''saved'', ''applied''})"
proof (intro conjI impI allI)
  assume "parse_interaction t = None"
  then show "updateRecommendationInteraction d now i t =
        (d, Inl (BadRequest ''Invalid interaction type''))"
    by (rule interaction_invalid)
next
  fix k assume p: "parse_interaction t = Some k"
  show "case find_stored d i of
         None \<Rightarrow> updateRecommendationInteraction d now i t =
                   (d, Inl (NotFound ''Recommendation not found''))
       | Some s \<Rightarrow>
           snd (updateRecommendationInteraction d now i t) = Inr (set_interaction k now s) \<and>
           flag k (set_interaction k now s) \<and> stamp k (set_interaction k now s) = Some now \<and>
           (\<forall>j. find_stored (fst (updateRecommendationInteraction d now i t)) j =
                  (if j = i then Some (set_interaction k now s) else find_stored d j))"
  proof (cases "find_stored d i")
    case None
    then show ?thesis using interaction_miss [OF p None] by simp
  next
    case (Some s)
    then show ?thesis
      using interaction_hit [OF p Some]
      by (simp add: flag_set_interaction stamp_set_interaction)
  qed
next
  assume l: "isl (snd (updateRecommendationInteraction d now i t))"
  show "fst (updateRecommendationInteraction d now i t) = d"
  proof (cases "parse_interaction t")
    case None
    then show ?thesis by (simp add: interaction_invalid)
  next
    case (Some k)
    show ?thesis
    proof (cases "find_stored d i")
      case None
      then show ?thesis by (simp add: interaction_miss [OF Some None])
    next
      case (Some s)
      with l interaction_hit(1) [OF \<open>parse_interaction t = Some k\<close> Some] show ?thesis by simp
    qed
  qed
next
  show "parse_interaction t \<noteq> None \<longleftrightarrow> t \<in> {''viewed'', ''saved'', ''applied''}"
    by (simp add: parse_interaction_def)
qed

text \<open>The claim C3 as stated fails: the second call moves \<open>viewed_at\<close> from 1000 to 2000.\<close>

theorem interaction_timestamp_counterexample:
  "map_option viewed_at
     (find_stored (fst (updateRecommendationInteraction
        (fst (updateRecommendationInteraction sample_db 1000 1 ''viewed'')) 2000 1 ''viewed'')) 1)
   \<noteq> map_option viewed_at
     (find_stored (fst (updateRecommendationInteraction sample_db 1000 1 ''viewed'')) 1)"
  by code_simp

text \<open>The claim C4 as stated fails: a call on a retired document succeeds and changes
  the store.\<close>

theorem record_interaction_counterexample:
  "map_option is_active (find_stored retired_db 1) = Some False \<and>
   \<not> isl (snd (updateRecommendationInteraction retired_db 5 1 ''viewed'')) \<and>
   fst (updateRecommendationInteraction retired_db 5 1 ''viewed'') \<noteq> retired_db"
  by code_simp

lemma sample_found: "find_stored sample_db 1 = Some (new_document 0 1 sample_rec)"
  by (simp add: find_stored_def sample_db_def new_document_def)

theorem interaction_overwrites_timestamp_witness:
  "parse_interaction ''viewed'' = Some Viewed \<and>
   find_stored sample_db 1 = Some (new_document 0 1 sample_rec) \<and>
   map_option viewed_at
     (find_stored (fst (updateRecommendationInteraction
        (fst (updateRecommendationInteraction sample_db 1000 1 ''viewed'')) 2000 1 ''viewed'')) 1)
     = Some (Some 2000)"
proof -
  have p: "parse_interaction ''viewed'' = Some Viewed" by (simp add: parse_interaction_def)
  from interaction_overwrites_timestamp [OF p sample_found, of 1000 2000]
  show ?thesis using p sample_found by (simp add: Let_def)
qed

theorem record_interaction_outcomes_witness:
  "parse_interaction ''viewed'' = Some Viewed \<and>
   find_stored retired_db 1 = Some ((new_document 0 1 sample_rec)\<lparr>is_active := False\<rparr>) \<and>
   snd (updateRecommendationInteraction retired_db 5 1 ''viewed'') =
     Inr (set_interaction Viewed 5 ((new_document 0 1 sample_rec)\<lparr>is_active := False\<rparr>)) \<and>
   find_stored retired_db 9 = None \<and>
   updateRecommendationInteraction retired_db 5 9 ''viewed'' =
     (retired_db, Inl (NotFound ''Recommendation not found'')) \<and>
   parse_interaction ''liked'' = None \<and>
   updateRecommendationInteraction retired_db 5 1 ''liked'' =
     (retired_db, Inl (BadRequest ''Invalid interaction type''))"
proof -
  have p: "parse_interaction ''viewed'' = Some Viewed" by (simp add: parse_interaction_def)
  have q: "parse_interaction ''liked'' = None" by (simp add: parse_interaction_def)
  have f: "find_stored retired_db 1 = Some ((new_document 0 1 sample_rec)\<lparr>is_active := False\<rparr>)"
    by (simp add: find_stored_def retired_db_def new_document_def)
  have g: "find_stored retired_db 9 = None"
    by (simp add: find_stored_def retired_db_def new_document_def)
  from record_interaction_outcomes [of "''viewed''" retired_db 5 1] p f
  have a: "snd (updateRecommendationInteraction retired_db 5 1 ''viewed'') =
     Inr (set_interaction Viewed 5 ((new_document 0 1 sample_rec)\<lparr>is_active := False\<rparr>))"
    by simp
  from record_interaction_outcomes [of "''viewed''" retired_db 5 9] p g
  have b: "updateRecommendationInteraction retired_db 5 9 ''viewed'' =
     (retired_db, Inl (NotFound ''Recommendation not found''))"
    by simp
  from record_interaction_outcomes [of "''liked''" retired_db 5 1] q
  have c: "updateRecommendationInteraction retired_db 5 1 ''liked'' =
     (retired_db, Inl (BadRequest ''Invalid interaction type''))"
    by simp
  from p q f g a b c show ?thesis by simp
qed

section \<open>Cold start\<close>

lemma content_exam_step_eq:
  "content_exam_step u prefs acc e =
     acc @ (if js_gt (exam_similarity prefs e) (rd (7 / 10))
            then [exam_rec u e (num_of (exam_similarity prefs e)) ContentBased
                    content_exam_reasons]
            else [])"
  by (cases "calculateContentSimilarity (exam_item e) prefs")
     (simp_all add: content_exam_step_def exam_similarity_def)

lemma content_opp_step_eq:
  "content_opp_step u prefs acc p =
     acc @ (if js_gt (opp_similarity prefs p) (rd (7 / 10))
            then [opp_rec u p (num_of (opp_similarity prefs p)) ContentBased
                    content_opp_reasons]
            else [])"
  by (cases "calculateContentSimilarity (opp_item p) prefs")
     (simp_all add: content_opp_step_def opp_similarity_def)

lemma foldl_content_exam_step:
  "foldl (content_exam_step u prefs) acc es =
     acc @ map (\<lambda>e. exam_rec u e (num_of (exam_similarity prefs e)) ContentBased
                       content_exam_reasons)
               (filter (\<lambda>e. js_gt (exam_similarity prefs e) (rd (7 / 10))) es)"
  by (induction es arbitrary: acc) (simp_all add: content_exam_step_eq)

lemma foldl_content_opp_step:
  "foldl (content_opp_step u prefs) acc ps =
     acc @ map (\<lambda>p. opp_rec u p (num_of (opp_similarity prefs p)) ContentBased
                       content_opp_reasons)
               (filter (\<lambda>p. js_gt (opp_similarity prefs p) (rd (7 / 10))) ps)"
  by (induction ps arbitrary: acc) (simp_all add: content_opp_step_eq)

lemma exam_eval_no_interests:
  "interests u = [] \<Longrightarrow> fst (exam_rule_eval u e) = exam_static_score u e"
  by (simp add: exam_rule_eval_def exam_static_score_def add_bonus_def Let_def)

lemma opp_eval_no_interests:
  "interests u = [] \<Longrightarrow> fst (opp_rule_eval u p) = opp_static_score u p"
  by (simp add: opp_rule_eval_def opp_static_score_def add_bonus_def Let_def)

text \<open>
  Claim C9, as amended. For a learner with no interests and nothing saved the
  content-based scorer returns the empty list for every pool. The rule-based scorer skips
  the interest term, so no quotient by the number of interests is formed, and scores each
  candidate by base, stage alignment and popularity alone; it emits exactly the candidates
  for which that score exceeds 0.6, so its result need not be empty.
\<close>

theorem cold_start_scorers:
  assumes "interests u = []" and "saved_exams u = []"
    and "saved_hackathons u = []" and "saved_internships u = []"
  shows "generateContentBasedRecommendations exs ops now u = [] \<and>
         fst (exam_rule_eval u e) = exam_static_score u e \<and>
         fst (opp_rule_eval u p) = opp_static_score u p \<and>
         generateRuleBasedRecommendations exs ops now u =
           (if user_role u = School
            then map (\<lambda>e. exam_rec u e (min (exam_static_score u e) 1) RuleBased
                             (snd (exam_rule_eval u e)))
                     (filter (\<lambda>e. 6 / 10 < exam_static_score u e) (rule_exam_pool now exs))
            else map (\<lambda>p. opp_rec u p (min (opp_static_score u p) 1) RuleBased
                             (snd (opp_rule_eval u p)))
                     (filter (\<lambda>p. 6 / 10 < opp_static_score u p) (rule_opp_pool now ops)))"
proof (intro conjI)
  show "generateContentBasedRecommendations exs ops now u = []"
    using assms by (simp add: generateContentBasedRecommendations_def savedOpps_def Let_def)
  show "fst (exam_rule_eval u e) = exam_static_score u e"
    by (rule exam_eval_no_interests [OF assms(1)])
  show "fst (opp_rule_eval u p) = opp_static_score u p"
    by (rule opp_eval_no_interests [OF assms(1)])
  show "generateRuleBasedRecommendations exs ops now u =
           (if user_role u = School
            then map (\<lambda>e. exam_rec u e (min (exam_static_score u e) 1) RuleBased
                             (snd (exam_rule_eval u e)))
                     (filter (\<lambda>e. 6 / 10 < exam_static_score u e) (rule_exam_pool now exs))
            else map (\<lambda>p. opp_rec u p (min (opp_static_score u p) 1) RuleBased
                             (snd (opp_rule_eval u p)))
                     (filter (\<lambda>p. 6 / 10 < opp_static_score u p) (rule_opp_pool now ops)))"
    by (simp add: generateRuleBasedRecommendations_def foldl_rule_exam_step
        foldl_rule_opp_step exam_eval_no_interests [OF assms(1)]
        opp_eval_no_interests [OF assms(1)])
qed

text \<open>The claim C9 as stated fails: a Science student with no interests and nothing
  saved is recommended a physics exam by the rule-based scorer.\<close>

theorem cold_start_counterexample:
  "interests cold_user = [] \<and> saved_exams cold_user = [] \<and>
   saved_hackathons cold_user = [] \<and> saved_internships cold_user = [] \<and>
   generateRuleBasedRecommendations [physics_exam] [] 0 cold_user \<noteq> []"
  by code_simp

theorem cold_start_scorers_witness:
  "interests cold_user = [] \<and> saved_exams cold_user = [] \<and>
   saved_hackathons cold_user = [] \<and> saved_internships cold_user = [] \<and>
   generateContentBasedRecommendations [physics_exam] [] 0 cold_user = [] \<and>
   fst (exam_rule_eval cold_user physics_exam) = 8 / 10 \<and>
   map entity_id (generateRuleBasedRecommendations [physics_exam, history_exam] [] 0 cold_user)
     = [10]"
proof -
  have h: "interests cold_user = []" "saved_exams cold_user = []"
    "saved_hackathons cold_user = []" "saved_internships cold_user = []"
    by (simp_all add: cold_user_def school_user_def)
  have s: "exam_static_score cold_user physics_exam = 8 / 10"
    "exam_static_score cold_user history_exam = 5 / 10"
    by code_simp+
  have r: "user_role cold_user = School" by (simp add: cold_user_def school_user_def)
  from cold_start_scorers [OF h, of "[physics_exam]" "[]" 0 physics_exam]
  have a: "generateContentBasedRecommendations [physics_exam] [] 0 cold_user = []"
    and b: "fst (exam_rule_eval cold_user physics_exam) = 8 / 10"
    by (simp_all add: s)
  have i: "exam_id physics_exam = 10" by (simp add: physics_exam_def)
  from cold_start_scorers [OF h, of "[physics_exam, history_exam]" "[]" 0]
  have c: "map entity_id
      (generateRuleBasedRecommendations [physics_exam, history_exam] [] 0 cold_user) = [10]"
    by (simp add: r s i sample_exam_pool exam_rec_def)
  from h a b c show ?thesis by simp
qed

section \<open>Properties of the content similarity\<close>

lemma ratio_bounds: "0 \<le> ratio xs prefs \<and> ratio xs prefs \<le> 1"
proof -
  let ?q = "of_nat (length (filter (\<lambda>x. x \<in> set prefs) xs)) / of_nat (length xs) :: rat"
  have "length (filter (\<lambda>x. x \<in> set prefs) xs) \<le> length xs" by simp
  then have "(of_nat (length (filter (\<lambda>x. x \<in> set prefs) xs)) :: rat) \<le> of_nat (length xs)"
    by (simp only: of_nat_le_iff)
  then have q: "0 \<le> ?q" "?q \<le> 1"
    by (auto simp: divide_le_eq_1)
  show ?thesis
    unfolding ratio_def using rd_nonneg [OF q(1)] rd_le_1 [OF q] by simp
qed

lemma weighted_sum_snoc:
  "weighted_sum (fs @ [(w, r)]) = rd (weighted_sum fs + rd (r * w))"
  by (simp add: weighted_sum_def)

lemma weight_total_snoc: "weight_total (fs @ [(w, r)]) = rd (weight_total fs + w)"
  by (simp add: weight_total_def)

lemma good_entries_append: "good_entries (fs @ gs) \<longleftrightarrow> good_entries fs \<and> good_entries gs"
  by (auto simp: good_entries_def)

lemma good_list_entry:
  "rd w = w \<Longrightarrow> rd (1 / 10) \<le> w \<Longrightarrow> good_entries (list_entry field prefs w)"
  by (cases field) (simp_all add: list_entry_def good_entries_def ratio_bounds)

lemma good_exact_entry: "good_entries (exact_entry field prefs)"
  by (cases field) (simp_all add: exact_entry_def good_entries_def rd_tenth)

lemma good_facets_used: "good_entries (facets_used it prefs)"
  unfolding facets_used_def good_entries_append
  by (intro conjI good_list_entry good_exact_entry rd_weights rd_weights_le)

lemma good_entries_bounds:
  "good_entries fs \<Longrightarrow> 0 \<le> weighted_sum fs \<and> weighted_sum fs \<le> weight_total fs \<and>
     (fs \<noteq> [] \<longrightarrow> rd (1 / 10) \<le> weight_total fs)"
proof (induction fs rule: rev_induct)
  case Nil
  then show ?case by (simp add: weighted_sum_def weight_total_def)
next
  case (snoc x fs)
  obtain w r where x: "x = (w, r)" by (cases x)
  from snoc.prems have g: "rd w = w" "rd (1 / 10) \<le> w" "0 \<le> r" "r \<le> 1"
    and gs: "good_entries fs"
    by (simp_all add: good_entries_def x)
  from g(2) rd_tenth_nonneg have w0: "0 \<le> w" by simp
  from snoc.IH [OF gs] have c: "0 \<le> weighted_sum fs" "weighted_sum fs \<le> weight_total fs"
    by simp_all
  from c have t0: "0 \<le> weight_total fs" by simp
  have p0: "0 \<le> r * w" using g(3) w0 by simp
  have p1: "r * w \<le> w" using mult_right_mono [of r 1 w] g(4) w0 by simp
  have q0: "0 \<le> rd (r * w)" by (rule rd_nonneg [OF p0])
  have q1: "rd (r * w) \<le> w" using rd_mono [OF p0 p1] g(1) by simp
  have s0: "0 \<le> weighted_sum fs + rd (r * w)"
    using c(1) q0 by (rule add_nonneg_nonneg)
  have s1: "weighted_sum fs + rd (r * w) \<le> weight_total fs + w"
    using c(2) q1 by (rule add_mono)
  have s2: "rd (1 / 10) \<le> weight_total fs + w"
    using t0 g(2) by simp
  have nn: "0 \<le> rd (weighted_sum fs + rd (r * w))" by (rule rd_nonneg [OF s0])
  have le: "rd (weighted_sum fs + rd (r * w)) \<le> rd (weight_total fs + w)"
    by (rule rd_mono [OF s0 s1])
  have pos: "rd (1 / 10) \<le> rd (weight_total fs + w)"
    by (rule rd_ge [OF rd_tenth rd_tenth_nonneg s2])
  show ?case
    unfolding x weighted_sum_snoc weight_total_snoc using nn le pos by blast
qed

lemma weighted_similarity_bounds:
  assumes "good_entries fs"
  shows "0 \<le> weighted_similarity fs \<and> weighted_similarity fs \<le> 1"
proof (cases "fs = []")
  case True
  then show ?thesis by (simp add: weighted_similarity_def)
next
  case False
  with good_entries_bounds [OF assms] rd_tenth_pos
  have b: "0 \<le> weighted_sum fs" "weighted_sum fs \<le> weight_total fs" "0 < weight_total fs"
    by simp_all
  then have q: "0 \<le> weighted_sum fs / weight_total fs" "weighted_sum fs / weight_total fs \<le> 1"
    by (simp_all add: divide_le_eq_1)
  from False show ?thesis
    using rd_nonneg [OF q(1)] rd_le_1 [OF q] by (simp add: weighted_similarity_def)
qed

lemma list_facet_sums:
  "field \<noteq> Some [] \<Longrightarrow>
   list_facet field prefs w (facet_sums fs) = facet_sums (fs @ list_entry field prefs w)"
  by (cases field)
     (simp_all add: list_facet_def list_entry_def facet_sums_def overlap_ratio_def ratio_def
        weighted_sum_def weight_total_def Let_def)

lemma exact_facet_sums:
  "exact_facet field prefs (facet_sums fs) = facet_sums (fs @ exact_entry field prefs)"
  by (cases field)
     (simp_all add: exact_facet_def exact_entry_def facet_sums_def weighted_sum_def
        weight_total_def rd_tenth)

lemma similarity_formula:
  assumes "\<not> empty_facet it"
  shows "calculateContentSimilarity it prefs = Num (weighted_similarity (facets_used it prefs))"
proof -
  from assms have ne: "item_subjects it \<noteq> Some []" "item_skills_required it \<noteq> Some []"
    "item_domain it \<noteq> Some []"
    by (simp_all add: empty_facet_def)
  have z: "(Num 0, 0) = facet_sums []" by (simp add: facet_sums_def weighted_sum_def weight_total_def)
  have st: "exact_facet (item_organizer it) (pref_organizers prefs)
      (exact_facet (item_company it) (pref_companies prefs)
        (list_facet (item_domain it) (pref_domains prefs) (rd (2 / 10))
          (list_facet (item_skills_required it) (pref_skills prefs) (rd (3 / 10))
            (list_facet (item_subjects it) (pref_subjects prefs) (rd (4 / 10)) (Num 0, 0)))))
      = facet_sums (facets_used it prefs)"
    unfolding z by (simp add: list_facet_sums ne exact_facet_sums facets_used_def)
  have pos: "facets_used it prefs \<noteq> [] \<longleftrightarrow> 0 < weight_total (facets_used it prefs)"
    using good_entries_bounds [OF good_facets_used, of it prefs] rd_tenth_pos
    by (auto simp: weight_total_def)
  show ?thesis
    unfolding calculateContentSimilarity_def Let_def st
    using pos by (cases "facets_used it prefs = []")
      (simp_all add: facet_sums_def weighted_similarity_def weight_total_def)
qed

lemma list_facet_NaN: "fst st = NaN \<Longrightarrow> fst (list_facet field prefs w st) = NaN"
  by (cases field) (simp_all add: list_facet_def)

lemma exact_facet_NaN: "fst st = NaN \<Longrightarrow> fst (exact_facet field prefs st) = NaN"
  by (cases field) (simp_all add: exact_facet_def)

lemma list_facet_empty: "fst (list_facet (Some []) prefs w st) = NaN"
  by (cases "fst st") (simp_all add: list_facet_def overlap_ratio_def)

text \<open>The total weight never decreases below 0, and once a facet has been counted it is
  at least the double 0.1.\<close>

lemma list_facet_total_nonneg:
  "0 \<le> w \<Longrightarrow> 0 \<le> snd st \<Longrightarrow> 0 \<le> snd (list_facet field prefs w st)"
  by (cases field) (simp_all add: list_facet_def rd_nonneg)

lemma list_facet_total_reach:
  assumes "rd (1 / 10) \<le> w" and "0 \<le> snd st"
  shows "rd (1 / 10) \<le> snd (list_facet (Some xs) prefs w st)"
proof -
  from assms have "rd (1 / 10) \<le> snd st + w" by simp
  from rd_ge [OF rd_tenth rd_tenth_nonneg this] show ?thesis
    by (simp add: list_facet_def)
qed

lemma list_facet_total_keep:
  assumes "0 \<le> w" and "rd (1 / 10) \<le> snd st"
  shows "rd (1 / 10) \<le> snd (list_facet field prefs w st)"
proof (cases field)
  case None
  with assms(2) show ?thesis by (simp add: list_facet_def)
next
  case (Some xs)
  from assms have "rd (1 / 10) \<le> snd st + w" by simp
  from rd_ge [OF rd_tenth rd_tenth_nonneg this] Some show ?thesis
    by (simp add: list_facet_def)
qed

lemma exact_facet_total_keep:
  assumes "rd (1 / 10) \<le> snd st"
  shows "rd (1 / 10) \<le> snd (exact_facet field prefs st)"
proof -
  from assms rd_tenth_nonneg have "rd (1 / 10) \<le> snd st + rd (1 / 10)" by simp
  from rd_ge [OF rd_tenth rd_tenth_nonneg this] assms show ?thesis
    by (cases field) (simp_all add: exact_facet_def)
qed

lemma similarity_NaN:
  assumes "empty_facet it"
  shows "calculateContentSimilarity it prefs = NaN"
proof -
  define st1 where
    "st1 = list_facet (item_subjects it) (pref_subjects prefs) (rd (4 / 10)) (Num 0, 0)"
  define st2 where
    "st2 = list_facet (item_skills_required it) (pref_skills prefs) (rd (3 / 10)) st1"
  define st3 where "st3 = list_facet (item_domain it) (pref_domains prefs) (rd (2 / 10)) st2"
  define st4 where "st4 = exact_facet (item_company it) (pref_companies prefs) st3"
  define st5 where "st5 = exact_facet (item_organizer it) (pref_organizers prefs) st4"
  have w4: "0 \<le> rd (4 / 10)" and w3: "0 \<le> rd (3 / 10)" and w2: "0 \<le> rd (2 / 10)"
    by (rule rd_nonneg; simp)+
  have n0: "0 \<le> snd (Num 0, 0 :: rat)" by simp
  have n1: "0 \<le> snd st1" unfolding st1_def by (rule list_facet_total_nonneg [OF w4 n0])
  have n2: "0 \<le> snd st2" unfolding st2_def by (rule list_facet_total_nonneg [OF w3 n1])
  have "fst st3 = NaN \<and> rd (1 / 10) \<le> snd st3"
    using assms unfolding empty_facet_def
  proof (elim disjE)
    assume a: "item_subjects it = Some []"
    have f1: "fst st1 = NaN" unfolding st1_def a by (rule list_facet_empty)
    have r1: "rd (1 / 10) \<le> snd st1"
      unfolding st1_def a by (rule list_facet_total_reach [OF rd_weights_le(1) n0])
    have f3: "fst st3 = NaN"
      unfolding st3_def st2_def by (intro list_facet_NaN f1)
    have r2: "rd (1 / 10) \<le> snd st2"
      unfolding st2_def by (rule list_facet_total_keep [OF w3 r1])
    have r3: "rd (1 / 10) \<le> snd st3"
      unfolding st3_def by (rule list_facet_total_keep [OF w2 r2])
    from f3 r3 show ?thesis by simp
  next
    assume a: "item_skills_required it = Some []"
    have f2: "fst st2 = NaN" unfolding st2_def a by (rule list_facet_empty)
    have r2: "rd (1 / 10) \<le> snd st2"
      unfolding st2_def a by (rule list_facet_total_reach [OF rd_weights_le(2) n1])
    have f3: "fst st3 = NaN"
      unfolding st3_def by (intro list_facet_NaN f2)
    have r3: "rd (1 / 10) \<le> snd st3"
      unfolding st3_def by (rule list_facet_total_keep [OF w2 r2])
    from f3 r3 show ?thesis by simp
  next
    assume a: "item_domain it = Some []"
    have f3: "fst st3 = NaN" unfolding st3_def a by (rule list_facet_empty)
    have r3: "rd (1 / 10) \<le> snd st3"
      unfolding st3_def a by (rule list_facet_total_reach [OF rd_weights_le(3) n2])
    from f3 r3 show ?thesis by simp
  qed
  then have f3: "fst st3 = NaN" and r3: "rd (1 / 10) \<le> snd st3" by simp_all
  have f5: "fst st5 = NaN"
    unfolding st5_def st4_def by (intro exact_facet_NaN f3)
  have "rd (1 / 10) \<le> snd st5"
    unfolding st5_def st4_def by (intro exact_facet_total_keep r3)
  with rd_tenth_pos have p5: "0 < snd st5" by simp
  from f5 p5 show ?thesis
    unfolding calculateContentSimilarity_def Let_def
      st1_def [symmetric] st2_def [symmetric] st3_def [symmetric] st4_def [symmetric]
      st5_def [symmetric]
    by simp
qed

lemma similarity_in_range:
  "calculateContentSimilarity it prefs = Num s \<Longrightarrow> 0 \<le> s \<and> s \<le> 1"
proof (cases "empty_facet it")
  case True
  assume "calculateContentSimilarity it prefs = Num s"
  with similarity_NaN [OF True, of prefs] show ?thesis by simp
next
  case False
  assume "calculateContentSimilarity it prefs = Num s"
  with similarity_formula [OF False, of prefs]
  have "s = weighted_similarity (facets_used it prefs)" by simp
  with weighted_similarity_bounds [OF good_facets_used, of it prefs] show ?thesis by simp
qed

section \<open>Properties of the content-based scorer\<close>

lemma content_output:
  "generateContentBasedRecommendations exs ops now u =
     (if user_role u = School \<and> saved_exams u \<noteq> []
      then map (\<lambda>e. exam_rec u e (num_of (exam_similarity (analyzeUserPreferences exs ops u) e))
                       ContentBased content_exam_reasons)
               (filter (\<lambda>e. js_gt (exam_similarity (analyzeUserPreferences exs ops u) e) (rd (7 / 10)))
                       (content_exam_candidates exs ops now u))
      else if user_role u = University \<and> savedOpps u \<noteq> []
      then map (\<lambda>p. opp_rec u p (num_of (opp_similarity (analyzeUserPreferences exs ops u) p))
                       ContentBased content_opp_reasons)
               (filter (\<lambda>p. js_gt (opp_similarity (analyzeUserPreferences exs ops u) p) (rd (7 / 10)))
                       (content_opp_candidates exs ops now u))
      else [])"
  by (simp add: generateContentBasedRecommendations_def Let_def foldl_content_exam_step
      foldl_content_opp_step content_exam_candidates_def content_opp_candidates_def)

lemma content_output_school:
  "user_role u = School \<and> saved_exams u \<noteq> [] \<Longrightarrow>
   generateContentBasedRecommendations exs ops now u =
     map (\<lambda>e. exam_rec u e (num_of (exam_similarity (analyzeUserPreferences exs ops u) e))
                ContentBased content_exam_reasons)
         (filter (\<lambda>e. js_gt (exam_similarity (analyzeUserPreferences exs ops u) e) (rd (7 / 10)))
                 (content_exam_candidates exs ops now u))"
  by (simp add: content_output)

lemma content_output_university:
  "user_role u = University \<and> savedOpps u \<noteq> [] \<Longrightarrow>
   generateContentBasedRecommendations exs ops now u =
     map (\<lambda>p. opp_rec u p (num_of (opp_similarity (analyzeUserPreferences exs ops u) p))
                ContentBased content_opp_reasons)
         (filter (\<lambda>p. js_gt (opp_similarity (analyzeUserPreferences exs ops u) p) (rd (7 / 10)))
                 (content_opp_candidates exs ops now u))"
  by (simp add: content_output)

lemma content_output_none:
  "\<not> (user_role u = School \<and> saved_exams u \<noteq> []) \<Longrightarrow>
   \<not> (user_role u = University \<and> savedOpps u \<noteq> []) \<Longrightarrow>
   generateContentBasedRecommendations exs ops now u = []"
  by (simp only: content_output if_False)

lemma distinct_content_exam_candidates:
  "distinct (map exam_id exs) \<Longrightarrow> distinct (map exam_id (content_exam_candidates exs ops now u))"
  by (simp add: content_exam_candidates_def findSimilarExams_def take_map [symmetric]
      distinct_map_filter)

lemma distinct_content_opp_candidates:
  "distinct (map opp_id ops) \<Longrightarrow> distinct (map opp_id (content_opp_candidates exs ops now u))"
  by (simp add: content_opp_candidates_def findSimilarOpportunities_def take_map [symmetric]
      distinct_map_filter)

lemma content_exam_candidates_subset:
  "set (content_exam_candidates exs ops now u) \<subseteq> set exs"
  by (auto simp: content_exam_candidates_def findSimilarExams_def dest: in_set_takeD)

lemma content_opp_candidates_subset:
  "set (content_opp_candidates exs ops now u) \<subseteq> set ops"
  by (auto simp: content_opp_candidates_def findSimilarOpportunities_def dest: in_set_takeD)

lemma emitted_map_filter_sub:
  assumes "distinct (map key xs)" and "set ys \<subseteq> set xs" and "x \<in> set xs"
    and "\<And>y. entity_type (mk y) = t \<and> entity_id (mk y) = key y"
    and "emitted (map mk (filter P ys)) t (key x)"
  shows "x \<in> set ys \<and> P x"
proof -
  from assms(4,5) obtain y where y: "y \<in> set ys" "P y" "key y = key x"
    by (auto simp: emitted_def)
  from assms(1) have "inj_on key (set xs)" by (simp add: distinct_map)
  with y(1,3) assms(2,3) have "y = x" by (auto dest: inj_onD)
  with y show ?thesis by simp
qed

lemma emitted_other_type:
  assumes "\<And>y. entity_type (mk y) \<noteq> t"
  shows "\<not> emitted (map mk ys) t i"
  using assms by (auto simp: emitted_def)

lemma not_emitted_Nil: "\<not> emitted [] t i"
  by (simp add: emitted_def)

text \<open>
  Claim C10. The ratios of \<open>calculateContentSimilarity\<close> are not guarded against an
  empty list: for an item that carries an empty subjects, skills or domain list the
  quotient is \<open>0 / 0\<close>, the similarity is \<open>NaN\<close>, and since \<open>NaN > 0.7\<close> is false the
  content-based scorer never emits such a candidate (and raises nothing: the scorer is a
  total function).
\<close>

theorem empty_facet_not_emitted:
  assumes "distinct (map exam_id exs)" and "distinct (map opp_id ops)"
  shows "(empty_facet it \<longrightarrow> calculateContentSimilarity it prefs = NaN) \<and>
         (\<forall>e \<in> set exs. exam_subjects e = [] \<longrightarrow>
            \<not> emitted (generateContentBasedRecommendations exs ops now u) Exam (exam_id e)) \<and>
         (\<forall>p \<in> set ops. opp_skills_required p = [] \<or> opp_domain p = Some [] \<longrightarrow>
            \<not> emitted (generateContentBasedRecommendations exs ops now u) Opportunity (opp_id p))"
proof (intro conjI impI ballI)
  assume "empty_facet it"
  then show "calculateContentSimilarity it prefs = NaN" by (rule similarity_NaN)
next
  fix e assume e: "e \<in> set exs" and emp: "exam_subjects e = []"
  let ?prefs = "analyzeUserPreferences exs ops u"
  have nan: "exam_similarity ?prefs e = NaN"
    unfolding exam_similarity_def
    by (rule similarity_NaN) (simp add: empty_facet_def exam_item_def emp)
  show "\<not> emitted (generateContentBasedRecommendations exs ops now u) Exam (exam_id e)"
  proof
    assume em: "emitted (generateContentBasedRecommendations exs ops now u) Exam (exam_id e)"
    show False
    proof (cases "user_role u = School \<and> saved_exams u \<noteq> []")
      case True
      from em have "emitted
          (map (\<lambda>e. exam_rec u e (num_of (exam_similarity ?prefs e)) ContentBased
                       content_exam_reasons)
               (filter (\<lambda>e. js_gt (exam_similarity ?prefs e) (rd (7 / 10)))
                       (content_exam_candidates exs ops now u))) Exam (exam_id e)"
        by (simp only: content_output_school [OF True])
      from emitted_map_filter_sub [OF assms(1) content_exam_candidates_subset e _ this]
      have "js_gt (exam_similarity ?prefs e) (rd (7 / 10))" by (simp add: exam_rec_def)
      with nan show False by simp
    next
      case False
      show False
      proof (cases "user_role u = University \<and> savedOpps u \<noteq> []")
        case True
        from em show False
          unfolding content_output_university [OF True]
          by (auto simp: emitted_def opp_rec_def)
      next
        case no: False
        from em show False
          unfolding content_output_none [OF False no] by (simp add: not_emitted_Nil)
      qed
    qed
  qed
next
  fix p assume p: "p \<in> set ops"
    and emp: "opp_skills_required p = [] \<or> opp_domain p = Some []"
  let ?prefs = "analyzeUserPreferences exs ops u"
  have nan: "opp_similarity ?prefs p = NaN"
    unfolding opp_similarity_def
    by (rule similarity_NaN) (use emp in \<open>auto simp: empty_facet_def opp_item_def\<close>)
  show "\<not> emitted (generateContentBasedRecommendations exs ops now u) Opportunity (opp_id p)"
  proof
    assume em: "emitted (generateContentBasedRecommendations exs ops now u) Opportunity (opp_id p)"
    show False
    proof (cases "user_role u = School \<and> saved_exams u \<noteq> []")
      case True
      from em show False
        unfolding content_output_school [OF True]
        by (auto simp: emitted_def exam_rec_def)
    next
      case False
      show False
      proof (cases "user_role u = University \<and> savedOpps u \<noteq> []")
        case True
        from em have "emitted
            (map (\<lambda>p. opp_rec u p (num_of (opp_similarity ?prefs p)) ContentBased
                         content_opp_reasons)
                 (filter (\<lambda>p. js_gt (opp_similarity ?prefs p) (rd (7 / 10)))
                         (content_opp_candidates exs ops now u))) Opportunity (opp_id p)"
          by (simp only: content_output_university [OF True])
        from emitted_map_filter_sub [OF assms(2) content_opp_candidates_subset p _ this]
        have "js_gt (opp_similarity ?prefs p) (rd (7 / 10))" by (simp add: opp_rec_def)
        with nan show False by simp
      next
        case no: False
        from em show False
          unfolding content_output_none [OF False no] by (simp add: not_emitted_Nil)
      qed
    qed
  qed
qed

text \<open>
  Claim C7, as amended. For an item whose list facets are non-empty where present, the
  similarity is the weighted sum of the ratios of the facets used divided by the sum of
  their weights, computed in double precision (each quotient, product and sum rounded to
  the nearest double), and 0 when no facet is used. A list facet (subjects 0.4, skills
  0.3, domain 0.2) is used when the item carries it, matching or not, with the fraction
  of its entries found among the preferences as ratio; company and organizer (0.1 each)
  are used only when the item's value is among the preferences. The scorer returns, in
  the order of its similarity query, exactly the candidates of that query whose
  similarity exceeds the double 0.7, each with its similarity as score.
\<close>

theorem content_similarity_formula:
  "(\<not> empty_facet it \<longrightarrow>
      calculateContentSimilarity it prefs = Num (weighted_similarity (facets_used it prefs))) \<and>
   generateContentBasedRecommendations exs ops now u =
     (if user_role u = School \<and> saved_exams u \<noteq> []
      then map (\<lambda>e. exam_rec u e (num_of (exam_similarity (analyzeUserPreferences exs ops u) e))
                       ContentBased content_exam_reasons)
               (filter (\<lambda>e. js_gt (exam_similarity (analyzeUserPreferences exs ops u) e)
                              (rd (7 / 10)))
                       (content_exam_candidates exs ops now u))
      else if user_role u = University \<and> savedOpps u \<noteq> []
      then map (\<lambda>p. opp_rec u p (num_of (opp_similarity (analyzeUserPreferences exs ops u) p))
                       ContentBased content_opp_reasons)
               (filter (\<lambda>p. js_gt (opp_similarity (analyzeUserPreferences exs ops u) p)
                              (rd (7 / 10)))
                       (content_opp_candidates exs ops now u))
      else [])"
proof (rule conjI)
  show "\<not> empty_facet it \<longrightarrow>
      calculateContentSimilarity it prefs = Num (weighted_similarity (facets_used it prefs))"
    using similarity_formula by blast
next
  show "generateContentBasedRecommendations exs ops now u =
     (if user_role u = School \<and> saved_exams u \<noteq> []
      then map (\<lambda>e. exam_rec u e (num_of (exam_similarity (analyzeUserPreferences exs ops u) e))
                       ContentBased content_exam_reasons)
               (filter (\<lambda>e. js_gt (exam_similarity (analyzeUserPreferences exs ops u) e)
                              (rd (7 / 10)))
                       (content_exam_candidates exs ops now u))
      else if user_role u = University \<and> savedOpps u \<noteq> []
      then map (\<lambda>p. opp_rec u p (num_of (opp_similarity (analyzeUserPreferences exs ops u) p))
                       ContentBased content_opp_reasons)
               (filter (\<lambda>p. js_gt (opp_similarity (analyzeUserPreferences exs ops u) p)
                              (rd (7 / 10)))
                       (content_opp_candidates exs ops now u))
      else [])"
    by (rule content_output)
qed

text \<open>The claim C7 as stated fails: it counts the weight of every facet the candidate
  has. An internship whose company is not among the preferences has similarity
  \<open>(0.3 + 0.1) / 0.5 = 0.8\<close> and is emitted; with the company's weight in the
  denominator the value would be \<open>0.4 / 0.6\<close>, below the threshold 0.7.\<close>

theorem content_similarity_counterexample:
  "emitted (generateContentBasedRecommendations [] sample_opps 0 uni_user) Opportunity
     (opp_id acme_internship) \<and>
   calculateContentSimilarity (opp_item acme_internship)
     (analyzeUserPreferences [] sample_opps uni_user) = Num (rd (4 / 5)) \<and>
   weighted_similarity (claimed_facets (opp_item acme_internship)
     (analyzeUserPreferences [] sample_opps uni_user)) < rd (7 / 10)"
  by code_simp

text \<open>The rounding decides at the threshold: the similarity
  \<open>((2/5) * 0.3 + 0.2 + 0.1) / 0.6\<close>, which is 0.7 in exact arithmetic, evaluates to the
  double next above 0.7, and the candidate is emitted.\<close>

lemma content_rounding_at_threshold:
  "calculateContentSimilarity (opp_item broad_internship)
     (analyzeUserPreferences [] [stack_internship, broad_internship] stack_saver) =
     Num (rd (7 / 10) + 1 / 2 ^ 53) \<and>
   (2 / 5 * (3 / 10) + 2 / 10 + 1 / 10) / (6 / 10) = (7 / 10 :: rat) \<and>
   map entity_id (generateContentBasedRecommendations [] [stack_internship, broad_internship]
     0 stack_saver) = [25]"
  by code_simp

section \<open>Insertion-ordered tables\<close>

lemma first_seen_snoc:
  "first_seen key (xs @ [x]) =
     (if key x \<in> key ` set (first_seen key xs) then first_seen key xs
      else first_seen key xs @ [x])"
  by (simp add: first_seen_def)

lemma first_seen_Nil: "first_seen key [] = []"
  by (simp add: first_seen_def)

lemma keys_first_seen: "key ` set (first_seen key xs) = key ` set xs"
  by (induction xs rule: rev_induct) (auto simp: first_seen_snoc first_seen_Nil)

lemma set_first_seen: "set (first_seen key xs) \<subseteq> set xs"
  by (induction xs rule: rev_induct) (auto simp: first_seen_snoc first_seen_Nil)

lemma distinct_first_seen: "distinct (map key (first_seen key xs))"
  by (induction xs rule: rev_induct) (auto simp: first_seen_snoc first_seen_Nil)

lemma upsert_absent: "k \<notin> fst ` set m \<Longrightarrow> upsert m k f v = m @ [(k, v)]"
  by (induction m) auto

lemma upsert_present:
  "k \<in> fst ` set m \<Longrightarrow> distinct (map fst m) \<Longrightarrow>
   upsert m k f v = map (\<lambda>(k', x). if k' = k then (k', f x) else (k', x)) m"
proof (induction m)
  case Nil
  then show ?case by simp
next
  case (Cons a m)
  obtain k' x where a: "a = (k', x)" by (cases a)
  show ?case
  proof (cases "k' = k")
    case True
    with Cons.prems(2) a have "k \<notin> fst ` set m" by auto
    then have "map (\<lambda>(k', x). if k' = k then (k', f x) else (k', x)) m = m"
      by (induction m) auto
    with True a show ?thesis by simp
  next
    case False
    with Cons a show ?thesis by auto
  qed
qed

lemma later_same_snoc_same:
  assumes "e \<in> set xs" and "key x = key e"
  shows "later_same key e (xs @ [x]) = later_same key e xs @ [x]"
proof -
  from assms(1) have "filter (\<lambda>y. key y = key e) xs \<noteq> []"
    by (auto simp: filter_empty_conv)
  with assms(2) show ?thesis
    by (simp add: later_same_def)
qed

lemma later_same_snoc_other:
  "key x \<noteq> key e \<Longrightarrow> later_same key e (xs @ [x]) = later_same key e xs"
  by (simp add: later_same_def)

lemma later_same_new:
  "key x \<notin> key ` set xs \<Longrightarrow> later_same key x (xs @ [x]) = []"
proof -
  assume "key x \<notin> key ` set xs"
  then have "\<forall>y \<in> set xs. key y \<noteq> key x" by (metis imageI)
  then have "filter (\<lambda>y. key y = key x) xs = []"
    by (simp add: filter_empty_conv)
  then show ?thesis by (simp add: later_same_def)
qed

lemma group_value_snoc_same:
  "e \<in> set xs \<Longrightarrow> key x = key e \<Longrightarrow>
   group_value key upd init (xs @ [x]) e = upd x (group_value key upd init xs e)"
  by (simp add: group_value_def later_same_snoc_same)

lemma group_value_snoc_other:
  "key x \<noteq> key e \<Longrightarrow> group_value key upd init (xs @ [x]) e = group_value key upd init xs e"
  by (simp add: group_value_def later_same_snoc_other)

lemma group_value_new:
  "key x \<notin> key ` set xs \<Longrightarrow> group_value key upd init (xs @ [x]) x = init x"
  by (simp add: group_value_def later_same_new)

lemma foldl_upsert:
  "foldl (\<lambda>m x. upsert m (key x) (upd x) (init x)) [] xs =
     map (\<lambda>e. (key e, group_value key upd init xs e)) (first_seen key xs)"
proof (induction xs rule: rev_induct)
  case Nil
  then show ?case by (simp add: first_seen_Nil)
next
  case (snoc x xs)
  define F where "F = foldl (\<lambda>m x. upsert m (key x) (upd x) (init x)) [] xs"
  have IH: "F = map (\<lambda>e. (key e, group_value key upd init xs e)) (first_seen key xs)"
    unfolding F_def by (rule snoc.IH)
  have step: "foldl (\<lambda>m x. upsert m (key x) (upd x) (init x)) [] (xs @ [x]) =
              upsert F (key x) (upd x) (init x)"
    by (simp add: F_def)
  have keys: "map fst F = map key (first_seen key xs)"
    unfolding IH by (simp add: comp_def)
  have keyset: "fst ` set F = key ` set xs"
  proof -
    have "fst ` set F = set (map fst F)" by simp
    also have "\<dots> = key ` set (first_seen key xs)" unfolding keys by simp
    finally show ?thesis by (simp add: keys_first_seen)
  qed
  have dist: "distinct (map fst F)"
    unfolding keys by (rule distinct_first_seen)
  show ?case
  proof (cases "key x \<in> key ` set xs")
    case True
    then have kin: "key x \<in> fst ` set F" by (simp add: keyset)
    have fs: "first_seen key (xs @ [x]) = first_seen key xs"
      using True by (simp add: first_seen_snoc keys_first_seen)
    have "upsert F (key x) (upd x) (init x) =
          map (\<lambda>(k', v). if k' = key x then (k', upd x v) else (k', v)) F"
      by (rule upsert_present [OF kin dist])
    also have "\<dots> = map (\<lambda>e. (key e, group_value key upd init (xs @ [x]) e)) (first_seen key xs)"
      unfolding IH map_map
    proof (rule map_cong [OF refl])
      fix e assume e: "e \<in> set (first_seen key xs)"
      then have exs: "e \<in> set xs" by (rule subsetD [OF set_first_seen])
      show "((\<lambda>(k', v). if k' = key x then (k', upd x v) else (k', v)) \<circ>
              (\<lambda>e. (key e, group_value key upd init xs e))) e =
            (key e, group_value key upd init (xs @ [x]) e)"
      proof (cases "key x = key e")
        case True
        then show ?thesis
          by (simp add: group_value_snoc_same [of e xs key x, OF exs True])
      next
        case False
        then have "key e \<noteq> key x" by simp
        then show ?thesis
          by (simp add: group_value_snoc_other [of key x e, OF False])
      qed
    qed
    finally show ?thesis
      unfolding step fs .
  next
    case False
    then have kout: "key x \<notin> fst ` set F" by (simp add: keyset)
    have fs: "first_seen key (xs @ [x]) = first_seen key xs @ [x]"
      using False by (simp add: first_seen_snoc keys_first_seen)
    have old: "map (\<lambda>e. (key e, group_value key upd init xs e)) (first_seen key xs) =
               map (\<lambda>e. (key e, group_value key upd init (xs @ [x]) e)) (first_seen key xs)"
    proof (rule map_cong [OF refl])
      fix e assume "e \<in> set (first_seen key xs)"
      then have "e \<in> set xs" by (rule subsetD [OF set_first_seen])
      then have "key e \<in> key ` set xs" by (rule imageI)
      with False have ne: "key x \<noteq> key e" by metis
      show "(key e, group_value key upd init xs e) =
            (key e, group_value key upd init (xs @ [x]) e)"
        by (simp add: group_value_snoc_other [of key x e, OF ne])
    qed
    have "upsert F (key x) (upd x) (init x) = F @ [(key x, init x)]"
      by (rule upsert_absent [OF kout])
    also have "\<dots> = map (\<lambda>e. (key e, group_value key upd init (xs @ [x]) e))
                         (first_seen key xs @ [x])"
      unfolding IH old by (simp add: group_value_new [of key x xs, OF False])
    finally show ?thesis
      unfolding step fs .
  qed
qed

lemma foldl_concat: "foldl (foldl f) a xss = foldl f a (concat xss)"
  by (induction xss arbitrary: a) simp_all

lemma tally_upsert: "tally t k x = upsert t k (\<lambda>(c, y). (c + 1, y)) (1, x)"
  by (induction t k x rule: tally.induct) simp_all

lemma foldl_count:
  "foldl (\<lambda>v y. case v of (c, e) \<Rightarrow> (c + 1, e)) (c0, e0) ys = (c0 + length ys, e0)"
  by (induction ys arbitrary: c0) simp_all

lemma tally_table:
  "foldl (\<lambda>t x. tally t (key x) x) [] xs =
     map (\<lambda>e. (key e, count_by key (key e) xs, e)) (first_seen key xs)"
proof -
  have "foldl (\<lambda>t x. tally t (key x) x) [] xs =
        foldl (\<lambda>m x. upsert m (key x) (\<lambda>(c, e). (c + 1, e)) (1, x)) [] xs"
    by (simp add: tally_upsert)
  also have "\<dots> = map (\<lambda>e. (key e, group_value key (\<lambda>y (c, e). (c + 1, e)) (\<lambda>x. (1, x)) xs e))
                       (first_seen key xs)"
    by (rule foldl_upsert [where upd = "\<lambda>y (c, e). (c + 1, e)" and init = "\<lambda>x. (1, x)"])
  also have "\<dots> = map (\<lambda>e. (key e, count_by key (key e) xs, e)) (first_seen key xs)"
  proof (rule map_cong [OF refl])
    fix e assume "e \<in> set (first_seen key xs)"
    then have "e \<in> set xs" by (rule subsetD [OF set_first_seen])
    then have "filter (\<lambda>y. key y = key e) xs \<noteq> []"
      by (auto simp: filter_empty_conv)
    then have len: "1 + length (later_same key e xs) = count_by key (key e) xs"
      by (cases "filter (\<lambda>y. key y = key e) xs") (simp_all add: later_same_def count_by_def)
    have "group_value key (\<lambda>y (c, e). (c + 1, e)) (\<lambda>x. (1, x)) xs e =
          (1 + length (later_same key e xs), e)"
      unfolding group_value_def by (rule foldl_count)
    then show "(key e, group_value key (\<lambda>y (c, e). (c + 1, e)) (\<lambda>x. (1, x)) xs e)
               = (key e, count_by key (key e) xs, e)"
      unfolding len by simp
  qed
  finally show ?thesis .
qed

theorem content_similarity_formula_witness:
  "\<not> empty_facet (opp_item acme_internship) \<and>
   calculateContentSimilarity (opp_item acme_internship)
     (analyzeUserPreferences [] sample_opps uni_user) = Num (rd (4 / 5)) \<and>
   user_role uni_user = University \<and> savedOpps uni_user \<noteq> [] \<and>
   content_opp_candidates [] sample_opps 0 uni_user = [acme_internship] \<and>
   map (\<lambda>r. (entity_id r, score r))
     (generateContentBasedRecommendations [] sample_opps 0 uni_user) = [(21, rd (4 / 5))]"
proof -
  have ne: "\<not> empty_facet (opp_item acme_internship)" by code_simp
  have r: "\<not> (user_role uni_user = School \<and> saved_exams uni_user \<noteq> [])"
    "user_role uni_user = University \<and> savedOpps uni_user \<noteq> []"
    by code_simp+
  have c: "content_opp_candidates [] sample_opps 0 uni_user = [acme_internship]"
    by code_simp
  have w: "weighted_similarity (facets_used (opp_item acme_internship)
             (analyzeUserPreferences [] sample_opps uni_user)) = rd (4 / 5)"
    by code_simp
  have g: "js_gt (opp_similarity (analyzeUserPreferences [] sample_opps uni_user)
             acme_internship) (rd (7 / 10))"
    by code_simp
  have i: "opp_id acme_internship = 21" by code_simp
  note t = content_similarity_formula [of "opp_item acme_internship"
      "analyzeUserPreferences [] sample_opps uni_user" "[]" sample_opps 0 uni_user]
  from t ne w have s: "calculateContentSimilarity (opp_item acme_internship)
     (analyzeUserPreferences [] sample_opps uni_user) = Num (rd (4 / 5))"
    by simp
  have "generateContentBasedRecommendations [] sample_opps 0 uni_user =
      map (\<lambda>p. opp_rec uni_user p
                  (num_of (opp_similarity (analyzeUserPreferences [] sample_opps uni_user) p))
                  ContentBased content_opp_reasons)
          (filter (\<lambda>p. js_gt (opp_similarity (analyzeUserPreferences [] sample_opps uni_user) p)
                         (rd (7 / 10)))
                  (content_opp_candidates [] sample_opps 0 uni_user))"
    unfolding t [THEN conjunct2] using r by simp
  then have m: "map (\<lambda>r. (entity_id r, score r))
     (generateContentBasedRecommendations [] sample_opps 0 uni_user) = [(21, rd (4 / 5))]"
    unfolding c using g s by (simp add: opp_rec_def opp_similarity_def i)
  from ne s r(2) c m show ?thesis by blast
qed

theorem empty_facet_not_emitted_witness:
  "distinct (map exam_id []) \<and> distinct (map opp_id sample_opps) \<and>
   empty_facet (opp_item hollow_internship) \<and>
   hollow_internship \<in> set (content_opp_candidates [] sample_opps 0 blank_saver) \<and>
   calculateContentSimilarity (opp_item hollow_internship)
     (analyzeUserPreferences [] sample_opps blank_saver) = NaN \<and>
   \<not> emitted (generateContentBasedRecommendations [] sample_opps 0 blank_saver) Opportunity
       (opp_id hollow_internship)"
proof -
  have d: "distinct (map exam_id [])" by simp
  have d': "distinct (map opp_id sample_opps)" by code_simp
  have em: "empty_facet (opp_item hollow_internship)" by code_simp
  have c: "hollow_internship \<in> set (content_opp_candidates [] sample_opps 0 blank_saver)"
    by code_simp
  have m: "hollow_internship \<in> set sample_opps" by (simp add: sample_opps_def)
  have k: "opp_skills_required hollow_internship = []" by (simp add: hollow_internship_def)
  note t = empty_facet_not_emitted [OF d d', of "opp_item hollow_internship"
      "analyzeUserPreferences [] sample_opps blank_saver" 0 blank_saver]
  from t em have s: "calculateContentSimilarity (opp_item hollow_internship)
     (analyzeUserPreferences [] sample_opps blank_saver) = NaN"
    by simp
  from t m k have e: "\<not> emitted (generateContentBasedRecommendations [] sample_opps 0 blank_saver)
     Opportunity (opp_id hollow_internship)"
    by blast
  from d d' em c s e show ?thesis by blast
qed

section \<open>Properties of the collaborative scorer\<close>

lemma collab_exam_step_eq:
  "collab_exam_step u n acc entry =
     acc @ (if 2 \<le> fst (snd entry) \<and> exam_id (snd (snd entry)) \<notin> set (saved_exams u)
            then [exam_rec u (snd (snd entry)) (min (rd (of_nat (fst (snd entry)) / of_nat n)) 1)
                    CollaborativeFiltering collab_reasons]
            else [])"
  by (cases entry) (simp add: collab_exam_step_def)

text \<open>No entry of the learner's saved lists is the \<open>_id\<close> object of a populated
  document, so the test \<open>userSavedOpps.includes(opportunity._id)\<close> is always false.\<close>

lemma plain_includes_populated: "\<not> plain_includes (userSavedOpps u) (PopulatedId, i)"
  by (auto simp: plain_includes_def userSavedOpps_def)

lemma collab_opp_step_eq:
  "collab_opp_step u n acc entry =
     acc @ (if 2 \<le> fst (snd entry)
            then [opp_rec u (snd (snd entry)) (min (rd (of_nat (fst (snd entry)) / of_nat n)) 1)
                    CollaborativeFiltering collab_reasons]
            else [])"
  by (cases entry) (simp add: collab_opp_step_def plain_includes_populated)

lemma foldl_collab_exam_step:
  "foldl (collab_exam_step u n) acc t =
     acc @ map (\<lambda>entry. exam_rec u (snd (snd entry)) (min (rd (of_nat (fst (snd entry)) / of_nat n)) 1)
                           CollaborativeFiltering collab_reasons)
               (filter (\<lambda>entry. 2 \<le> fst (snd entry) \<and>
                                 exam_id (snd (snd entry)) \<notin> set (saved_exams u)) t)"
  by (induction t arbitrary: acc) (simp_all add: collab_exam_step_eq)

lemma foldl_collab_opp_step:
  "foldl (collab_opp_step u n) acc t =
     acc @ map (\<lambda>entry. opp_rec u (snd (snd entry)) (min (rd (of_nat (fst (snd entry)) / of_nat n)) 1)
                           CollaborativeFiltering collab_reasons)
               (filter (\<lambda>entry. 2 \<le> fst (snd entry)) t)"
  by (induction t arbitrary: acc) (simp_all add: collab_opp_step_eq)

lemma foldl_nested: "foldl (\<lambda>t v. foldl f t (g v)) a vs = foldl f a (concat (map g vs))"
  by (induction vs arbitrary: a) simp_all

lemma popularExams_table:
  "popularExams exs dat =
     map (\<lambda>e. (exam_id e, count_by exam_id (exam_id e) (neighbour_exams exs dat), e))
         (first_seen exam_id (neighbour_exams exs dat))"
  unfolding popularExams_def neighbour_exams_def foldl_nested
  by (rule tally_table)

lemma popularOpportunities_table:
  "popularOpportunities ops dat =
     map (\<lambda>p. (opp_id p, count_by opp_id (opp_id p) (neighbour_opps ops dat), p))
         (first_seen opp_id (neighbour_opps ops dat))"
  unfolding popularOpportunities_def neighbour_opps_def foldl_nested
  by (rule tally_table)

lemma filter_member_take_filter:
  "distinct xs \<Longrightarrow> filter (\<lambda>v. v \<in> set (take n (filter P xs))) xs = take n (filter P xs)"
proof (induction xs arbitrary: n)
  case Nil
  then show ?case by simp
next
  case (Cons a xs)
  then have a: "a \<notin> set xs" and d: "distinct xs" by simp_all
  have sub: "\<And>m. set (take m (filter P xs)) \<subseteq> set xs"
    by (meson filter_is_subset order_trans set_take_subset)
  show ?case
  proof (cases n)
    case 0
    then show ?thesis by simp
  next
    case (Suc m)
    show ?thesis
    proof (cases "P a")
      case True
      have "filter (\<lambda>v. v = a \<or> v \<in> set (take m (filter P xs))) xs =
            filter (\<lambda>v. v \<in> set (take m (filter P xs))) xs"
        by (rule filter_cong [OF refl]) (use a in auto)
      with True Suc Cons.IH [OF d, of m] show ?thesis by simp
    next
      case False
      from a sub [of n] have "a \<notin> set (take n (filter P xs))" by blast
      with False Cons.IH [OF d, of n] show ?thesis by simp
    qed
  qed
qed

lemma similarUsersData_neighbours:
  assumes "distinct (map user_id users)"
  shows "similarUsersData users (findSimilarUsers users u) = findSimilarUsers users u"
proof -
  let ?P = "\<lambda>v. (\<exists>i \<in> set (interests v). i \<in> set (interests u)) \<and>
                 user_is_active v \<and> user_id v \<noteq> user_id u"
  let ?ns = "take 20 (filter ?P users)"
  from assms have inj: "inj_on user_id (set users)" and d: "distinct users"
    by (simp_all add: distinct_map)
  have sub: "set ?ns \<subseteq> set users"
    by (meson filter_is_subset order_trans set_take_subset)
  have "filter (\<lambda>v. user_id v \<in> set (map user_id ?ns)) users =
        filter (\<lambda>v. v \<in> set ?ns) users"
  proof (rule filter_cong [OF refl])
    fix v assume v: "v \<in> set users"
    show "(user_id v \<in> set (map user_id ?ns)) = (v \<in> set ?ns)"
    proof
      assume "user_id v \<in> set (map user_id ?ns)"
      then obtain w where w: "w \<in> set ?ns" "user_id w = user_id v" by auto
      with sub have "w \<in> set users" by blast
      with inj v w(2) have "w = v" by (auto dest: inj_onD)
      with w(1) show "v \<in> set ?ns" by simp
    next
      assume "v \<in> set ?ns"
      then show "user_id v \<in> set (map user_id ?ns)" by simp
    qed
  qed
  also have "\<dots> = ?ns" by (rule filter_member_take_filter [OF d])
  finally show ?thesis
    by (simp add: similarUsersData_def findSimilarUsers_def)
qed

lemma find_SomeD: "find P xs = Some x \<Longrightarrow> P x \<and> x \<in> set xs"
  by (induction xs) (auto split: if_splits)

lemma map_filter_member:
  "y \<in> set (List.map_filter f xs) \<Longrightarrow> \<exists>x \<in> set xs. f x = Some y"
  by (induction xs) (auto simp: List.map_filter_simps split: option.splits)

lemma populate_exams_member:
  assumes "e \<in> set (populate_exams exs ids)"
  shows "exam_id e \<in> set ids \<and> e \<in> set exs"
proof -
  from assms obtain i where i: "i \<in> set ids" "find (\<lambda>e. exam_id e = i) exs = Some e"
    unfolding populate_exams_def by (blast dest: map_filter_member)
  from find_SomeD [OF i(2)] i(1) show ?thesis by simp
qed

lemma populate_opps_member:
  assumes "p \<in> set (populate_opps ops ids)"
  shows "opp_id p \<in> set ids \<and> p \<in> set ops"
proof -
  from assms obtain i where i: "i \<in> set ids" "find (\<lambda>p. opp_id p = i) ops = Some p"
    unfolding populate_opps_def by (blast dest: map_filter_member)
  from find_SomeD [OF i(2)] i(1) show ?thesis by simp
qed

lemma neighbour_exams_saved:
  "e \<in> set (neighbour_exams exs ns) \<Longrightarrow> \<exists>v \<in> set ns. exam_id e \<in> set (saved_exams v)"
  by (auto simp: neighbour_exams_def dest: populate_exams_member)

lemma neighbour_opps_saved:
  "p \<in> set (neighbour_opps ops ns) \<Longrightarrow> \<exists>v \<in> set ns. opp_id p \<in> set (savedOpps v)"
  by (auto simp: neighbour_opps_def savedOpps_def dest: populate_opps_member)

lemma findSimilarUsers_props:
  "length (findSimilarUsers users u) \<le> 20 \<and>
   (\<forall>v \<in> set (findSimilarUsers users u).
      v \<in> set users \<and> user_id v \<noteq> user_id u \<and> user_is_active v \<and>
      (\<exists>i \<in> set (interests v). i \<in> set (interests u)))"
proof (rule conjI)
  show "length (findSimilarUsers users u) \<le> 20"
    by (simp add: findSimilarUsers_def)
next
  show "\<forall>v \<in> set (findSimilarUsers users u).
      v \<in> set users \<and> user_id v \<noteq> user_id u \<and> user_is_active v \<and>
      (\<exists>i \<in> set (interests v). i \<in> set (interests u))"
  proof (rule ballI)
    fix v assume "v \<in> set (findSimilarUsers users u)"
    then have "v \<in> set (filter (\<lambda>v. (\<exists>i \<in> set (interests v). i \<in> set (interests u)) \<and>
                              user_is_active v \<and> user_id v \<noteq> user_id u) users)"
      unfolding findSimilarUsers_def by (rule in_set_takeD)
    then show "v \<in> set users \<and> user_id v \<noteq> user_id u \<and> user_is_active v \<and>
        (\<exists>i \<in> set (interests v). i \<in> set (interests u))"
      by simp
  qed
qed

lemma collaborative_output:
  assumes "distinct (map user_id users)"
  shows "generateCollaborativeFilteringRecommendations users exs ops u =
     (let ns = findSimilarUsers users u
      in if user_role u = School
         then map (\<lambda>e. exam_rec u e
                     (min (rd (of_nat (count_by exam_id (exam_id e) (neighbour_exams exs ns)) /
                               of_nat (length ns))) 1)
                     CollaborativeFiltering collab_reasons)
                  (filter (\<lambda>e. 2 \<le> count_by exam_id (exam_id e) (neighbour_exams exs ns) \<and>
                               exam_id e \<notin> set (saved_exams u))
                          (first_seen exam_id (neighbour_exams exs ns)))
         else map (\<lambda>p. opp_rec u p
                     (min (rd (of_nat (count_by opp_id (opp_id p) (neighbour_opps ops ns)) /
                               of_nat (length ns))) 1)
                     CollaborativeFiltering collab_reasons)
                  (filter (\<lambda>p. 2 \<le> count_by opp_id (opp_id p) (neighbour_opps ops ns))
                          (first_seen opp_id (neighbour_opps ops ns))))"
proof (cases "findSimilarUsers users u = []")
  case True
  then show ?thesis
    by (simp add: generateCollaborativeFilteringRecommendations_def Let_def
        neighbour_exams_def neighbour_opps_def first_seen_Nil)
next
  case False
  then show ?thesis
    by (simp add: generateCollaborativeFilteringRecommendations_def Let_def
        similarUsersData_neighbours [OF assms] foldl_collab_exam_step foldl_collab_opp_step
        popularExams_table popularOpportunities_table filter_map comp_def)
qed

lemma collaborative_output_school:
  assumes "distinct (map user_id users)" and "user_role u = School"
  shows "generateCollaborativeFilteringRecommendations users exs ops u =
     map (\<lambda>e. exam_rec u e
            (min (rd (of_nat (count_by exam_id (exam_id e)
                               (neighbour_exams exs (findSimilarUsers users u))) /
                      of_nat (length (findSimilarUsers users u)))) 1)
            CollaborativeFiltering collab_reasons)
         (filter (\<lambda>e. 2 \<le> count_by exam_id (exam_id e)
                            (neighbour_exams exs (findSimilarUsers users u)) \<and>
                      exam_id e \<notin> set (saved_exams u))
                 (first_seen exam_id (neighbour_exams exs (findSimilarUsers users u))))"
  using assms(2) by (simp add: collaborative_output [OF assms(1)] Let_def)

lemma collaborative_output_university:
  assumes "distinct (map user_id users)" and "user_role u \<noteq> School"
  shows "generateCollaborativeFilteringRecommendations users exs ops u =
     map (\<lambda>p. opp_rec u p
            (min (rd (of_nat (count_by opp_id (opp_id p)
                               (neighbour_opps ops (findSimilarUsers users u))) /
                      of_nat (length (findSimilarUsers users u)))) 1)
            CollaborativeFiltering collab_reasons)
         (filter (\<lambda>p. 2 \<le> count_by opp_id (opp_id p)
                            (neighbour_opps ops (findSimilarUsers users u)))
                 (first_seen opp_id (neighbour_opps ops (findSimilarUsers users u))))"
  using assms(2) by (simp add: collaborative_output [OF assms(1)] Let_def)

lemma collaborative_unsaved_university:
  assumes "distinct (map user_id users)" and "user_role u \<noteq> School"
  shows "filter (\<lambda>r. entity_id r \<notin> set (savedOpps u))
           (generateCollaborativeFilteringRecommendations users exs ops u) =
     map (\<lambda>p. opp_rec u p
            (min (rd (of_nat (count_by opp_id (opp_id p)
                               (neighbour_opps ops (findSimilarUsers users u))) /
                      of_nat (length (findSimilarUsers users u)))) 1)
            CollaborativeFiltering collab_reasons)
         (filter (\<lambda>p. 2 \<le> count_by opp_id (opp_id p)
                            (neighbour_opps ops (findSimilarUsers users u)) \<and>
                      opp_id p \<notin> set (savedOpps u))
                 (first_seen opp_id (neighbour_opps ops (findSimilarUsers users u))))"
  unfolding collaborative_output_university [OF assms]
  by (simp add: filter_map comp_def opp_rec_def)

lemma collaborative_popular_university:
  assumes "distinct (map user_id users)" and "user_role u \<noteq> School"
    and "r \<in> set (generateCollaborativeFilteringRecommendations users exs ops u)"
  shows "\<exists>p \<in> set (first_seen opp_id (neighbour_opps ops (findSimilarUsers users u))).
           2 \<le> count_by opp_id (opp_id p) (neighbour_opps ops (findSimilarUsers users u)) \<and>
           r = opp_rec u p
                 (min (rd (of_nat (count_by opp_id (opp_id p)
                                    (neighbour_opps ops (findSimilarUsers users u))) /
                           of_nat (length (findSimilarUsers users u)))) 1)
                 CollaborativeFiltering collab_reasons"
  using assms(3) unfolding collaborative_output_university [OF assms(1,2)] by auto

lemma collaborative_exam_source:
  assumes "distinct (map user_id users)"
    and "emitted (generateCollaborativeFilteringRecommendations users exs ops u) Exam i"
  shows "\<exists>v \<in> set (findSimilarUsers users u). i \<in> set (saved_exams v)"
proof (cases "user_role u = School")
  case True
  from assms(2) obtain e
    where e: "e \<in> set (first_seen exam_id (neighbour_exams exs (findSimilarUsers users u)))"
      and i: "exam_id e = i"
    unfolding collaborative_output_school [OF assms(1) True]
    by (auto simp: emitted_def exam_rec_def)
  from e have "e \<in> set (neighbour_exams exs (findSimilarUsers users u))"
    by (rule subsetD [OF set_first_seen])
  from neighbour_exams_saved [OF this] i show ?thesis by simp
next
  case False
  from assms(2) show ?thesis
    unfolding collaborative_output_university [OF assms(1) False]
    by (auto simp: emitted_def opp_rec_def)
qed

lemma collaborative_opp_source:
  assumes "distinct (map user_id users)"
    and "emitted (generateCollaborativeFilteringRecommendations users exs ops u) Opportunity i"
  shows "\<exists>v \<in> set (findSimilarUsers users u). i \<in> set (savedOpps v)"
proof (cases "user_role u = School")
  case True
  from assms(2) show ?thesis
    unfolding collaborative_output_school [OF assms(1) True]
    by (auto simp: emitted_def exam_rec_def)
next
  case False
  from assms(2) obtain p
    where p: "p \<in> set (first_seen opp_id (neighbour_opps ops (findSimilarUsers users u)))"
      and i: "opp_id p = i"
    unfolding collaborative_output_university [OF assms(1) False]
    by (auto simp: emitted_def opp_rec_def)
  from p have "p \<in> set (neighbour_opps ops (findSimilarUsers users u))"
    by (rule subsetD [OF set_first_seen])
  from neighbour_opps_saved [OF this] i show ?thesis by simp
qed

lemma collaborative_no_neighbours:
  "findSimilarUsers users u = [] \<Longrightarrow>
   generateCollaborativeFilteringRecommendations users exs ops u = []"
  by (simp add: generateCollaborativeFilteringRecommendations_def)

text \<open>
  Claim C8, as amended. The scorer reads at most 20 active other learners who share a
  declared interest with the learner; with no such neighbour the result is empty. An
  offering counts once for every entry of a neighbour's saved lists that refers to it (a
  neighbour who lists it twice counts twice), and its score is
  \<open>min (count / number of neighbours) 1\<close>, the quotient in double precision. For a school
  learner the result is, in order of first appearance, exactly the examinations with a
  count of at least 2 that the learner has not saved. For any other learner every
  emitted opportunity has a count of at least 2, and the opportunities the learner has
  not saved are emitted, in order of first appearance, exactly when their count is at
  least 2. Every emitted offering is in some neighbour's saved list.
\<close>

theorem collaborative_neighbours:
  assumes "distinct (map user_id users)"
  shows "length (findSimilarUsers users u) \<le> 20 \<and>
     (\<forall>v \<in> set (findSimilarUsers users u).
        v \<in> set users \<and> user_id v \<noteq> user_id u \<and> user_is_active v \<and>
        (\<exists>i \<in> set (interests v). i \<in> set (interests u))) \<and>
     (findSimilarUsers users u = [] \<longrightarrow>
        generateCollaborativeFilteringRecommendations users exs ops u = []) \<and>
     (user_role u = School \<longrightarrow>
        generateCollaborativeFilteringRecommendations users exs ops u =
          map (\<lambda>e. exam_rec u e
                 (min (rd (of_nat (count_by exam_id (exam_id e)
                                    (neighbour_exams exs (findSimilarUsers users u))) /
                           of_nat (length (findSimilarUsers users u)))) 1)
                 CollaborativeFiltering collab_reasons)
              (filter (\<lambda>e. 2 \<le> count_by exam_id (exam_id e)
                                 (neighbour_exams exs (findSimilarUsers users u)) \<and>
                           exam_id e \<notin> set (saved_exams u))
                      (first_seen exam_id (neighbour_exams exs (findSimilarUsers users u))))) \<and>
     (user_role u \<noteq> School \<longrightarrow>
        filter (\<lambda>r. entity_id r \<notin> set (savedOpps u))
          (generateCollaborativeFilteringRecommendations users exs ops u) =
          map (\<lambda>p. opp_rec u p
                 (min (rd (of_nat (count_by opp_id (opp_id p)
                                    (neighbour_opps ops (findSimilarUsers users u))) /
                           of_nat (length (findSimilarUsers users u)))) 1)
                 CollaborativeFiltering collab_reasons)
              (filter (\<lambda>p. 2 \<le> count_by opp_id (opp_id p)
                                 (neighbour_opps ops (findSimilarUsers users u)) \<and>
                           opp_id p \<notin> set (savedOpps u))
                      (first_seen opp_id (neighbour_opps ops (findSimilarUsers users u))))) \<and>
     (user_role u \<noteq> School \<and>
      r \<in> set (generateCollaborativeFilteringRecommendations users exs ops u) \<longrightarrow>
        (\<exists>p \<in> set (first_seen opp_id (neighbour_opps ops (findSimilarUsers users u))).
           2 \<le> count_by opp_id (opp_id p) (neighbour_opps ops (findSimilarUsers users u)) \<and>
           r = opp_rec u p
                 (min (rd (of_nat (count_by opp_id (opp_id p)
                                    (neighbour_opps ops (findSimilarUsers users u))) /
                           of_nat (length (findSimilarUsers users u)))) 1)
                 CollaborativeFiltering collab_reasons)) \<and>
     (emitted (generateCollaborativeFilteringRecommendations users exs ops u) Exam i \<longrightarrow>
        (\<exists>v \<in> set (findSimilarUsers users u). i \<in> set (saved_exams v))) \<and>
     (emitted (generateCollaborativeFilteringRecommendations users exs ops u) Opportunity i \<longrightarrow>
        (\<exists>v \<in> set (findSimilarUsers users u). i \<in> set (savedOpps v)))"
  using findSimilarUsers_props [of users u] collaborative_no_neighbours [of users u exs ops]
    collaborative_output_school [OF assms, of u exs ops]
    collaborative_unsaved_university [OF assms, of u exs ops]
    collaborative_popular_university [OF assms, of u r exs ops]
    collaborative_exam_source [OF assms, of exs ops u i]
    collaborative_opp_source [OF assms, of exs ops u i]
  by blast

text \<open>The claim C8 as stated fails: a single neighbour who saved the same opportunity
  both as a hackathon and as an internship gives it the count 2, and it is emitted
  although only one neighbour saved it.\<close>

theorem collaborative_counterexample:
  "emitted (generateCollaborativeFilteringRecommendations [uni_user, double_saver] []
      sample_opps uni_user) Opportunity (opp_id acme_internship) \<and>
   length (filter (\<lambda>v. opp_id acme_internship \<in> set (savedOpps v))
             (findSimilarUsers [uni_user, double_saver] uni_user)) = 1"
  by code_simp

text \<open>An opportunity the learner has saved is emitted all the same when its count
  reaches 2: the entries of \<open>userSavedOpps\<close> and the \<open>_id\<close> of a populated document are
  different objects, and \<open>Array.prototype.includes\<close> compares objects by identity. The
  examination loop, which calls \<open>includes\<close> on the \<open>MongooseArray\<close>, skips a saved
  examination.\<close>

lemma collaborative_saved_emitted:
  "opp_id acme_internship \<in> set (savedOpps web_user) \<and>
   emitted (generateCollaborativeFilteringRecommendations
      [uni_user, go_user, web_user, double_saver] [] sample_opps web_user)
      Opportunity (opp_id acme_internship)"
  by code_simp

theorem collaborative_neighbours_witness:
  "distinct (map user_id sample_users) \<and>
   findSimilarUsers sample_users uni_user = [go_user, web_user] \<and>
   user_role uni_user \<noteq> School \<and>
   map (\<lambda>r. (entity_id r, score r))
     (filter (\<lambda>r. entity_id r \<notin> set (savedOpps uni_user))
        (generateCollaborativeFilteringRecommendations sample_users [] sample_opps uni_user)) =
     [(21, 1)] \<and>
   emitted (generateCollaborativeFilteringRecommendations sample_users [] sample_opps uni_user)
     Opportunity 21 \<and>
   (\<exists>v \<in> set (findSimilarUsers sample_users uni_user). 21 \<in> set (savedOpps v))"
proof -
  have d: "distinct (map user_id sample_users)" by code_simp
  have n: "findSimilarUsers sample_users uni_user = [go_user, web_user]" by code_simp
  have r: "user_role uni_user \<noteq> School" by code_simp
  have f: "first_seen opp_id (neighbour_opps sample_opps [go_user, web_user]) =
           [acme_internship, initech_internship]"
    by code_simp
  have c: "count_by opp_id 21 (neighbour_opps sample_opps [go_user, web_user]) = 2"
    "count_by opp_id 20 (neighbour_opps sample_opps [go_user, web_user]) = 1"
    by code_simp+
  have s: "21 \<notin> set (savedOpps uni_user)" by code_simp
  have i: "opp_id acme_internship = 21" "opp_id initech_internship = 20" by code_simp+
  have e: "emitted
     (generateCollaborativeFilteringRecommendations sample_users [] sample_opps uni_user)
     Opportunity 21"
    by code_simp
  note t = collaborative_neighbours [OF d, of uni_user "[]" sample_opps _ 21]
  from t r have out: "filter (\<lambda>r. entity_id r \<notin> set (savedOpps uni_user))
      (generateCollaborativeFilteringRecommendations sample_users [] sample_opps uni_user) =
      map (\<lambda>p. opp_rec uni_user p
                 (min (rd (of_nat (count_by opp_id (opp_id p)
                                (neighbour_opps sample_opps (findSimilarUsers sample_users uni_user))) /
                       of_nat (length (findSimilarUsers sample_users uni_user)))) 1)
                 CollaborativeFiltering collab_reasons)
              (filter (\<lambda>p. 2 \<le> count_by opp_id (opp_id p)
                                 (neighbour_opps sample_opps (findSimilarUsers sample_users uni_user)) \<and>
                           opp_id p \<notin> set (savedOpps uni_user))
                      (first_seen opp_id
                         (neighbour_opps sample_opps (findSimilarUsers sample_users uni_user))))"
    by blast
  have m: "map (\<lambda>r. (entity_id r, score r))
     (filter (\<lambda>r. entity_id r \<notin> set (savedOpps uni_user))
        (generateCollaborativeFilteringRecommendations sample_users [] sample_opps uni_user)) =
     [(21, 1)]"
    unfolding out n f by (simp add: c s i opp_rec_def rd_1)
  from t e have "\<exists>v \<in> set (findSimilarUsers sample_users uni_user). 21 \<in> set (savedOpps v)"
    by blast
  with d n r m e show ?thesis by blast
qed

section \<open>Properties of the hybrid merge\<close>

lemma map_merge_upsert: "map_merge m k r = upsert m k (\<lambda>x. average_into x r) r"
  by (induction m k r rule: map_merge.induct) simp_all

lemma uniqueRecommendations_merged: "map snd (uniqueRecommendations xs) = merged xs"
proof -
  have "uniqueRecommendations xs =
        foldl (\<lambda>m r. upsert m (rec_key r) (\<lambda>x. average_into x r) r) [] xs"
    by (simp add: uniqueRecommendations_def map_merge_upsert)
  also have "\<dots> = map (\<lambda>e. (rec_key e, group_value rec_key (\<lambda>r x. average_into x r) (\<lambda>r. r) xs e))
                       (first_seen rec_key xs)"
    by (rule foldl_upsert [where key = rec_key and upd = "\<lambda>r x. average_into x r"
          and init = "\<lambda>r. r"])
  finally show ?thesis
    by (simp add: merged_def group_value_def comp_def)
qed





lemma merge_recommendations_merged:
  "merge_recommendations xs = take 50 (sort_key (\<lambda>r. - score r) (merged xs))"
  by (simp add: merge_recommendations_def uniqueRecommendations_merged)





lemma average_in_unit:
  "in_unit (score a) \<Longrightarrow> in_unit (score b) \<Longrightarrow> in_unit (score (average_into a b))"
  using rd_mean [of "score a" "score b"] by (simp add: in_unit_def average_into_def)




text \<open>The rounded mean also decides the order against a stored 0.85: the merged exam
  10 at 0.8500000000000001 comes before the exam 11 at 0.85, although it was seen
  later.\<close>

lemma hybrid_rounded_mean_order:
  "map (\<lambda>r. (entity_id r, score r)) (merge_recommendations near_list) =
     [(10, rd (85 / 100) + 1 / 2 ^ 53), (11, rd (85 / 100))]"
  by code_simp


section \<open>Scores stay in the unit interval\<close>

lemma rule_based_in_unit:
  assumes "r \<in> set (generateRuleBasedRecommendations exs ops now u)"
  shows "in_unit (score r)"
proof (cases "user_role u = School")
  case True
  with assms obtain e where "6 / 10 < fst (exam_rule_eval u e)"
    and "r = exam_rec u e (min (fst (exam_rule_eval u e)) 1) RuleBased (snd (exam_rule_eval u e))"
    by (auto simp: generateRuleBasedRecommendations_def foldl_rule_exam_step)
  then show ?thesis by (simp add: in_unit_def exam_rec_def min_def)
next
  case False
  with assms obtain p where "6 / 10 < fst (opp_rule_eval u p)"
    and "r = opp_rec u p (min (fst (opp_rule_eval u p)) 1) RuleBased (snd (opp_rule_eval u p))"
    by (auto simp: generateRuleBasedRecommendations_def foldl_rule_opp_step)
  then show ?thesis by (simp add: in_unit_def opp_rec_def min_def)
qed

lemma js_gt_in_unit:
  assumes "js_gt (calculateContentSimilarity it prefs) (rd (7 / 10))"
  shows "in_unit (num_of (calculateContentSimilarity it prefs))"
proof (cases "calculateContentSimilarity it prefs")
  case (Num s)
  with similarity_in_range [OF Num] show ?thesis by (simp add: in_unit_def)
next
  case NaN
  with assms show ?thesis by simp
qed

lemma content_based_in_unit:
  assumes "r \<in> set (generateContentBasedRecommendations exs ops now u)"
  shows "in_unit (score r)"
proof (cases "user_role u = School \<and> saved_exams u \<noteq> []")
  case True
  from assms obtain e
    where "js_gt (exam_similarity (analyzeUserPreferences exs ops u) e) (rd (7 / 10))"
      and "score r = num_of (exam_similarity (analyzeUserPreferences exs ops u) e)"
    unfolding content_output_school [OF True] by (auto simp: exam_rec_def)
  then show ?thesis
    unfolding exam_similarity_def using js_gt_in_unit by simp
next
  case False
  show ?thesis
  proof (cases "user_role u = University \<and> savedOpps u \<noteq> []")
    case True
    from assms obtain p
      where "js_gt (opp_similarity (analyzeUserPreferences exs ops u) p) (rd (7 / 10))"
        and "score r = num_of (opp_similarity (analyzeUserPreferences exs ops u) p)"
      unfolding content_output_university [OF True] by (auto simp: opp_rec_def)
    then show ?thesis
      unfolding opp_similarity_def using js_gt_in_unit by simp
  next
    case no: False
    from assms show ?thesis
      unfolding content_output_none [OF False no] by simp
  qed
qed

lemma min_quotient_in_unit: "in_unit (min (rd (of_nat c / of_nat n)) 1)"
proof -
  have "(0 :: rat) \<le> of_nat c / of_nat n" by simp
  from rd_nonneg [OF this] show ?thesis by (simp add: in_unit_def min_def)
qed

lemma collaborative_in_unit:
  assumes "r \<in> set (generateCollaborativeFilteringRecommendations users exs ops u)"
  shows "in_unit (score r)"
  using assms
  by (auto simp: generateCollaborativeFilteringRecommendations_def Let_def
      foldl_collab_exam_step foldl_collab_opp_step exam_rec_def opp_rec_def
      min_quotient_in_unit split: if_splits)

lemma foldl_average_in_unit:
  "in_unit (score e) \<Longrightarrow> \<forall>y \<in> set ys. in_unit (score y) \<Longrightarrow>
   in_unit (score (foldl average_into e ys))"
  by (induction ys arbitrary: e) (simp_all add: average_in_unit)

lemma set_later_same: "set (later_same key e xs) \<subseteq> set xs"
proof -
  have "set (tl (filter (\<lambda>y. key y = key e) xs)) \<subseteq> set (filter (\<lambda>y. key y = key e) xs)"
    by (cases "filter (\<lambda>y. key y = key e) xs") auto
  then show ?thesis unfolding later_same_def by auto
qed

lemma merge_in_unit:
  assumes "\<forall>x \<in> set xs. in_unit (score x)" and "r \<in> set (merge_recommendations xs)"
  shows "in_unit (score r)"
proof -
  from assms(2) have "r \<in> set (sort_key (\<lambda>r. - score r) (merged xs))"
    unfolding merge_recommendations_merged by (rule in_set_takeD)
  then have "r \<in> set (merged xs)" by simp
  then obtain e where e: "e \<in> set (first_seen rec_key xs)"
    and r: "r = foldl average_into e (later_same rec_key e xs)"
    by (auto simp: merged_def)
  from e have "e \<in> set xs" by (rule subsetD [OF set_first_seen])
  with assms(1) have 1: "in_unit (score e)" by simp
  from assms(1) set_later_same [of rec_key e xs]
  have 2: "\<forall>y \<in> set (later_same rec_key e xs). in_unit (score y)" by blast
  show ?thesis unfolding r by (rule foldl_average_in_unit [OF 1 2])
qed

lemma hybrid_in_unit:
  assumes "r \<in> set (generateHybridRecommendations users exs ops now u)"
  shows "in_unit (score r)"
proof -
  have "\<forall>x \<in> set (generateRuleBasedRecommendations exs ops now u @
                    generateContentBasedRecommendations exs ops now u @
                    generateCollaborativeFilteringRecommendations users exs ops u).
          in_unit (score x)"
    using rule_based_in_unit content_based_in_unit collaborative_in_unit by auto
  from merge_in_unit [OF this] assms show ?thesis
    by (simp add: generateHybridRecommendations_def Let_def)
qed

text \<open>
  Claim C2. Every record produced by the rule-based, content-based, collaborative and
  hybrid algorithms has a score between 0 and 1.
\<close>

theorem scores_in_unit_interval:
  "(\<forall>r \<in> set (generateRuleBasedRecommendations exs ops now u).
      0 \<le> score r \<and> score r \<le> 1) \<and>
   (\<forall>r \<in> set (generateContentBasedRecommendations exs ops now u).
      0 \<le> score r \<and> score r \<le> 1) \<and>
   (\<forall>r \<in> set (generateCollaborativeFilteringRecommendations users exs ops u).
      0 \<le> score r \<and> score r \<le> 1) \<and>
   (\<forall>r \<in> set (generateHybridRecommendations users exs ops now u).
      0 \<le> score r \<and> score r \<le> 1)"
  using rule_based_in_unit [of _ exs ops now u] content_based_in_unit [of _ exs ops now u]
    collaborative_in_unit [of _ users exs ops u] hybrid_in_unit [of _ users exs ops now u]
  unfolding in_unit_def by blast

theorem scores_in_unit_interval_witness:
  "hd (generateRuleBasedRecommendations [] sample_opps 0 uni_user)
     \<in> set (generateRuleBasedRecommendations [] sample_opps 0 uni_user) \<and>
   0 \<le> score (hd (generateRuleBasedRecommendations [] sample_opps 0 uni_user)) \<and>
   score (hd (generateRuleBasedRecommendations [] sample_opps 0 uni_user)) \<le> 1 \<and>
   hd (generateContentBasedRecommendations [] sample_opps 0 uni_user)
     \<in> set (generateContentBasedRecommendations [] sample_opps 0 uni_user) \<and>
   0 \<le> score (hd (generateContentBasedRecommendations [] sample_opps 0 uni_user)) \<and>
   score (hd (generateContentBasedRecommendations [] sample_opps 0 uni_user)) \<le> 1 \<and>
   hd (generateCollaborativeFilteringRecommendations sample_users [] sample_opps uni_user)
     \<in> set (generateCollaborativeFilteringRecommendations sample_users [] sample_opps uni_user) \<and>
   0 \<le> score (hd (generateCollaborativeFilteringRecommendations sample_users [] sample_opps
                     uni_user)) \<and>
   score (hd (generateCollaborativeFilteringRecommendations sample_users [] sample_opps
                uni_user)) \<le> 1 \<and>
   last (generateHybridRecommendations sample_users [] sample_opps 0 uni_user)
     \<in> set (generateHybridRecommendations sample_users [] sample_opps 0 uni_user) \<and>
   0 \<le> score (last (generateHybridRecommendations sample_users [] sample_opps 0 uni_user)) \<and>
   score (last (generateHybridRecommendations sample_users [] sample_opps 0 uni_user)) \<le> 1"
proof -
  have 1: "generateRuleBasedRecommendations [] sample_opps 0 uni_user \<noteq> []"
    by code_simp
  have 2: "generateContentBasedRecommendations [] sample_opps 0 uni_user \<noteq> []"
    by code_simp
  have 3: "generateCollaborativeFilteringRecommendations sample_users [] sample_opps uni_user
             \<noteq> []"
    by code_simp
  have 4: "generateHybridRecommendations sample_users [] sample_opps 0 uni_user \<noteq> []"
    by code_simp
  note m = hd_in_set [OF 1] hd_in_set [OF 2] hd_in_set [OF 3] last_in_set [OF 4]
  from scores_in_unit_interval [of "[]" sample_opps 0 uni_user sample_users] m
  show ?thesis by blast
qed

section \<open>Generation runs and the store\<close>

lemma doc_new_document: "doc (new_document now i r) = r"
  by (simp add: new_document_def)

lemma inserted_docs:
  "map doc (map (\<lambda>(i, r). new_document now i r) (zip [n ..< n + length rs] rs)) = rs"
proof -
  have "map doc (map (\<lambda>(i, r). new_document now i r) (zip [n ..< n + length rs] rs)) =
        map snd (zip [n ..< n + length rs] rs)"
    by (rule nth_equalityI) (simp_all add: doc_new_document)
  also have "\<dots> = rs" by (rule map_snd_zip) simp
  finally show ?thesis .
qed

lemma inserted_active:
  "filter is_active (map (\<lambda>(i, r). new_document now i r) (zip is rs)) =
     map (\<lambda>(i, r). new_document now i r) (zip is rs)"
  by (rule filter_True) (auto simp: new_document_def)

lemma active_keys_insertMany:
  "active_keys (insertMany now rs d) =
     active_keys d @ map (\<lambda>r. (rec_user_id r, entity_type r, entity_id r)) rs"
proof -
  have "map (\<lambda>s. (rec_user_id (doc s), entity_type (doc s), entity_id (doc s)))
          (map (\<lambda>(i, r). new_document now i r) (zip [db_next_id d ..< db_next_id d + length rs] rs))
        = map (\<lambda>r. (rec_user_id r, entity_type r, entity_id r))
            (map doc (map (\<lambda>(i, r). new_document now i r)
               (zip [db_next_id d ..< db_next_id d + length rs] rs)))"
    by (simp add: comp_def)
  then show ?thesis
    unfolding inserted_docs
    by (simp add: active_keys_def insertMany_def inserted_active)
qed

lemma active_keys_of_deleteMany: "active_keys_of uid (deleteMany uid d) = []"
  by (auto simp: active_keys_of_def active_keys_def deleteMany_def filter_empty_conv)

lemma foldl_ctl_exam_step:
  "foldl (ctl_exam_step u) acc es =
     acc @ map (\<lambda>e. exam_rec u e (min (ctl_exam_score u e) 1) RuleBased fixed_exam_reasons)
               (filter (\<lambda>e. 6 / 10 < ctl_exam_score u e) es)"
  by (induction es arbitrary: acc) (simp_all add: ctl_exam_step_def)

lemma foldl_ctl_opp_step:
  "foldl (ctl_opp_step u) acc ps =
     acc @ map (\<lambda>p. opp_rec u p (min (ctl_opp_score u p) 1) RuleBased fixed_opp_reasons)
               (filter (\<lambda>p. 6 / 10 < ctl_opp_score u p) ps)"
  by (induction ps arbitrary: acc) (simp_all add: ctl_opp_step_def)

lemma ctl_new_keys:
  assumes "distinct (map exam_id (db_exams d))" and "distinct (map opp_id (db_opportunities d))"
  shows "distinct (map (\<lambda>r. (rec_user_id r, entity_type r, entity_id r))
                       (ctl_newRecommendations d now u))"
proof (cases "user_role u = School")
  case True
  have "distinct (map exam_id (filter (\<lambda>e. 6 / 10 < ctl_exam_score u e)
                   (take 20 (filter (exam_upcoming now) (db_exams d)))))"
    using assms(1) by (simp add: distinct_map_filter take_map [symmetric])
  then have "distinct (map (\<lambda>e. (user_id u, Exam, exam_id e))
                 (filter (\<lambda>e. 6 / 10 < ctl_exam_score u e)
                   (take 20 (filter (exam_upcoming now) (db_exams d)))))"
    by (simp add: distinct_map inj_on_def)
  with True show ?thesis
    by (simp add: ctl_newRecommendations_def foldl_ctl_exam_step comp_def exam_rec_def)
next
  case False
  have "distinct (map opp_id (filter (\<lambda>p. 6 / 10 < ctl_opp_score u p)
                   (take 30 (filter (opp_open now) (db_opportunities d)))))"
    using assms(2) by (simp add: distinct_map_filter take_map [symmetric])
  then have "distinct (map (\<lambda>p. (user_id u, Opportunity, opp_id p))
                 (filter (\<lambda>p. 6 / 10 < ctl_opp_score u p)
                   (take 30 (filter (opp_open now) (db_opportunities d)))))"
    by (simp add: distinct_map inj_on_def)
  with False show ?thesis
    by (simp add: ctl_newRecommendations_def foldl_ctl_opp_step comp_def opp_rec_def)
qed

text \<open>The controller's generation run clears the learner's records before it inserts,
  so after it the learner's active records have distinct keys.\<close>

lemma controller_generate_unique:
  assumes "distinct (map exam_id (db_exams d))" and "distinct (map opp_id (db_opportunities d))"
    and "findUserById d uid = Some u"
  shows "distinct (active_keys_of uid (fst (controller_generateRecommendations d now uid)))"
proof -
  let ?d1 = "deleteMany uid d"
  let ?new = "ctl_newRecommendations ?d1 now u"
  have cat: "db_exams ?d1 = db_exams d" "db_opportunities ?d1 = db_opportunities d"
    by (simp_all add: deleteMany_def)
  have new: "distinct (map (\<lambda>r. (rec_user_id r, entity_type r, entity_id r)) ?new)"
    by (rule ctl_new_keys) (simp_all add: cat assms)
  have "active_keys_of uid (insertMany now ?new ?d1) =
        filter (\<lambda>k. fst k = uid) (map (\<lambda>r. (rec_user_id r, entity_type r, entity_id r)) ?new)"
    using active_keys_of_deleteMany [of uid d]
    by (simp add: active_keys_of_def active_keys_insertMany)
  with new have ins: "distinct (active_keys_of uid (insertMany now ?new ?d1))"
    by simp
  have del: "distinct (active_keys_of uid ?d1)"
    by (simp add: active_keys_of_deleteMany)
  show ?thesis
    using assms(3) ins del
    by (simp add: controller_generateRecommendations_def Let_def)
qed

text \<open>
  Claim C1. After two consecutive generation runs of the service for the same learner
  the store holds two active records for the same (learner, entity type, entity id):
  \<open>RecommendationService.generateRecommendations\<close> inserts the new batch without
  retiring or deleting the previous one. The controller's run on the same store leaves
  one.
\<close>

theorem service_generation_duplicates:
  "active_keys_of 1
     (fst (service_generateRecommendations
        (fst (service_generateRecommendations fresh_db 0 1 ''rule_based'')) 1 1 ''rule_based''))
     = [(1, Exam, 10), (1, Exam, 10)] \<and>
   active_keys_of 1
     (fst (controller_generateRecommendations
        (fst (controller_generateRecommendations fresh_db 0 1)) 1 1))
     = [(1, Exam, 10)]"
  by code_simp

end
